theory Spec2Isabelle
  imports Complex_Main "HOL-Library.AList"
begin

section \<open>JavaScript values\<close>

text \<open>
  The values handled by \<^verbatim>\<open>packages/monday/index.js\<close> are JSON data: the external record,
  the mapping configuration, the GraphQL response bodies. They are modelled as trees.
  An object is the list of its own enumerable properties in insertion order (the order
  \<^verbatim>\<open>Object.entries\<close> and \<^verbatim>\<open>for ... in\<close> visit them); a lookup takes the first entry of a key.

  Limits of the value model, which every statement below inherits:
  \<^item> a number is the exact rational it denotes; rounding to an IEEE double, \<^verbatim>\<open>NaN\<close>, the
    infinities and the sign of zero are not modelled;
  \<^item> a string is a list of 8-bit code units (Latin-1);
  \<^item> the properties of an object are visited in list order; the engine visits the keys that
    are array indices first, in ascending order, and only then the others in insertion
    order, so the two orders agree on objects whose index keys come first and ascending;
  \<^item> functions, symbols, \<^verbatim>\<open>Date\<close> objects and members inherited from the built-in
    prototypes are not values of the model: a property read sees own properties only.
\<close>

datatype jsval =
    JUndefined
  | JNull
  | JBool bool
  | JNum rat
  | JStr string
  | JArr "jsval list"
  | JObj "(string \<times> jsval) list"

type_synonym props = "(string \<times> jsval) list"

text \<open>
  Exceptions. Every one is an \<^verbatim>\<open>Error\<close> object with a message; the constructors name the
  kind of object thrown and carry the extra fields the code attaches to it.
  \<open>TypeError\<close> and \<open>SyntaxError\<close> are raised by the engine (their message is the engine's
  wording); \<open>Error\<close> is \<^verbatim>\<open>new Error(msg)\<close>; \<open>NetworkError\<close>, \<open>HttpError\<close> and
  \<open>GraphQLError\<close> are the three decorated errors built in \<^verbatim>\<open>MondayApiClient.query\<close>:
  \<open>NetworkError msg code\<close>, \<open>HttpError msg status\<close>,
  \<open>GraphQLError msg code data errors extensions\<close>.
\<close>

datatype js_error =
    TypeError string
  | SyntaxError string
  | Error string
  | NetworkError string jsval
  | HttpError string nat
  | GraphQLError string "string option" jsval jsval jsval

fun error_message :: "js_error \<Rightarrow> string" where
  "error_message (TypeError m) = m"
| "error_message (SyntaxError m) = m"
| "error_message (Error m) = m"
| "error_message (NetworkError m c) = m"
| "error_message (HttpError m s) = m"
| "error_message (GraphQLError m c d e x) = m"

text \<open>A computation that may throw: \<open>Inl\<close> is the exception, \<open>Inr\<close> the value.\<close>

type_synonym 'a result = "js_error + 'a"

definition bind_result :: "'a result \<Rightarrow> ('a \<Rightarrow> 'b result) \<Rightarrow> 'b result" where
  "bind_result r f = (case r of Inl e \<Rightarrow> Inl e | Inr v \<Rightarrow> f v)"

text \<open>\<^verbatim>\<open>ToBoolean\<close>: the falsy values are undefined, null, false, 0 and the empty string.\<close>

fun truthy :: "jsval \<Rightarrow> bool" where
  "truthy JUndefined = False"
| "truthy JNull = False"
| "truthy (JBool b) = b"
| "truthy (JNum n) = (n \<noteq> 0)"
| "truthy (JStr s) = (s \<noteq> [])"
| "truthy (JArr xs) = True"
| "truthy (JObj ps) = True"

text \<open>\<^verbatim>\<open>a || b\<close> on values.\<close>

definition js_or :: "jsval \<Rightarrow> jsval \<Rightarrow> jsval" where
  "js_or a b = (if truthy a then a else b)"

section \<open>Strings\<close>

definition is_digit :: "char \<Rightarrow> bool" where
  "is_digit c = (c \<in> set ''0123456789'')"

text \<open>
  White space as \<^verbatim>\<open>String.prototype.trim\<close> and the class \<^verbatim>\<open>\s\<close> see it, within Latin-1:
  tab, line feed, vertical tab, form feed, carriage return, space and no-break space.
\<close>

definition is_space :: "char \<Rightarrow> bool" where
  "is_space c = (c \<in> set [CHR 0x09, CHR 0x0A, CHR 0x0B, CHR 0x0C, CHR 0x0D, CHR 0x20, CHR 0xA0])"

definition trim :: "string \<Rightarrow> string" where
  "trim s = rev (dropWhile is_space (rev (dropWhile is_space s)))"

definition startsWith :: "string \<Rightarrow> string \<Rightarrow> bool" where
  "startsWith s p = (take (length p) s = p)"

text \<open>\<^verbatim>\<open>s.includes(p)\<close>: \<open>p\<close> occurs in \<open>s\<close> as a contiguous substring.\<close>

fun includes_str :: "string \<Rightarrow> string \<Rightarrow> bool" where
  "includes_str [] p = (p = [])"
| "includes_str (c # s) p = (startsWith (c # s) p \<or> includes_str s p)"

text \<open>\<^verbatim>\<open>s.split(sep)\<close> for a separator of one character: always at least one part.\<close>

fun split_on :: "char \<Rightarrow> string \<Rightarrow> string list" where
  "split_on sep [] = [[]]"
| "split_on sep (c # s) =
     (if c = sep then [] # split_on sep s
      else (case split_on sep s of [] \<Rightarrow> [[c]] | p # ps \<Rightarrow> (c # p) # ps))"

text \<open>
  \<^verbatim>\<open>toLowerCase\<close> within Latin-1: the ASCII capitals and the capitals from \<^verbatim>\<open>0xC0\<close> to
  \<^verbatim>\<open>0xDE\<close> (the multiplication sign \<^verbatim>\<open>0xD7\<close> apart) move up by 32.
\<close>

definition lower_char :: "char \<Rightarrow> char" where
  "lower_char c =
     (case map_of (zip ''ABCDEFGHIJKLMNOPQRSTUVWXYZ'' ''abcdefghijklmnopqrstuvwxyz'') c of
        Some l \<Rightarrow> l
      | None \<Rightarrow>
          (let n = (of_char c :: nat)
           in if 192 \<le> n \<and> n \<le> 222 \<and> n \<noteq> 215 then char_of (n + 32) else c))"

definition toLowerCase :: "string \<Rightarrow> string" where
  "toLowerCase s = map lower_char s"

subsection \<open>Decimal numerals\<close>

definition digit_val :: "char \<Rightarrow> nat" where
  "digit_val c = of_char c - 48"

text \<open>The value of a string of digits, read left to right from an accumulator.\<close>

fun digits_val :: "nat \<Rightarrow> string \<Rightarrow> nat" where
  "digits_val acc [] = acc"
| "digits_val acc (c # s) = digits_val (10 * acc + digit_val c) s"

text \<open>
  \<^verbatim>\<open>parseInt(s, 10)\<close> and \<^verbatim>\<open>parseFloat(s)\<close> on the strings \<^verbatim>\<open>sanitizeNumbers\<close> passes them, which
  hold digits and dots only: both read the longest prefix that is a numeral and give \<^verbatim>\<open>NaN\<close>
  (here \<open>None\<close>) when that prefix has no digit. \<^verbatim>\<open>parseFloat\<close> reads digits, then optionally
  a dot and further digits.
\<close>

definition parseInt10 :: "string \<Rightarrow> rat option" where
  "parseInt10 s =
     (let ds = takeWhile is_digit s
      in if ds = [] then None else Some (of_nat (digits_val 0 ds)))"

definition parseFloat :: "string \<Rightarrow> rat option" where
  "parseFloat s =
     (let ip = takeWhile is_digit s;
          rest = dropWhile is_digit s;
          fp = (case rest of [] \<Rightarrow> [] | c # r \<Rightarrow> if c = CHR ''.'' then takeWhile is_digit r else [])
      in if ip = [] \<and> fp = [] then None
         else Some (of_nat (digits_val 0 ip) + of_nat (digits_val 0 fp) / 10 ^ length fp))"

text \<open>
  \<^verbatim>\<open>Number.prototype.toString\<close>. Integers print as their decimal digits, which is what the
  engine prints below \<^verbatim>\<open>1e21\<close>. For other numbers the model prints the decimal expansion,
  cut after 20 fraction digits; the engine prints the shortest numeral that reads back as
  the same double, so the two agree on short decimals only. No statement below depends on
  the fraction digits.
\<close>

function nat_to_string :: "nat \<Rightarrow> string" where
  "nat_to_string n =
     (if n < 10 then [''0123456789'' ! n]
      else nat_to_string (n div 10) @ [''0123456789'' ! (n mod 10)])"
  by pat_completeness auto
termination
  by (relation "measure id") auto

declare nat_to_string.simps [simp del]

fun frac_digits :: "nat \<Rightarrow> rat \<Rightarrow> string" where
  "frac_digits 0 f = []"
| "frac_digits (Suc fuel) f =
     (if f = 0 then []
      else (let d = nat (floor (f * 10))
            in (''0123456789'' ! d) # frac_digits fuel (f * 10 - of_nat d)))"

definition numberToString :: "rat \<Rightarrow> string" where
  "numberToString r =
     (let a = abs r; n = nat (floor a); f = a - of_nat n
      in (if r < 0 then ''-'' else '''') @ nat_to_string n @
         (if f = 0 then '''' else ''.'' @ frac_digits 20 f))"

text \<open>
  \<^verbatim>\<open>String(v)\<close> and template interpolation (\<^verbatim>\<open>ToString\<close>). An array joins the strings of its
  elements with commas, null and undefined elements giving the empty string. A plain
  object prints as \<^verbatim>\<open>[object Object]\<close> through \<^verbatim>\<open>Object.prototype.toString\<close>; when it has an
  own property \<^verbatim>\<open>toString\<close>, that property shadows the inherited method and, being data,
  is not callable: the conversion then falls back on \<^verbatim>\<open>valueOf\<close>, which gives no primitive,
  and throws.
\<close>

fun to_string :: "jsval \<Rightarrow> string result"
  and join_elems :: "jsval list \<Rightarrow> string result"
  and elem_string :: "jsval \<Rightarrow> string result"
where
  "to_string JUndefined = Inr ''undefined''"
| "to_string JNull = Inr ''null''"
| "to_string (JBool b) = Inr (if b then ''true'' else ''false'')"
| "to_string (JNum n) = Inr (numberToString n)"
| "to_string (JStr s) = Inr s"
| "to_string (JArr xs) = join_elems xs"
| "to_string (JObj ps) =
     (if ''toString'' \<in> fst ` set ps
      then Inl (TypeError ''Cannot convert object to primitive value'')
      else Inr ''[object Object]'')"
| "join_elems [] = Inr []"
| "join_elems (x # xs) =
     (case elem_string x of
        Inl e \<Rightarrow> Inl e
      | Inr s \<Rightarrow>
          (if xs = [] then Inr s
           else (case join_elems xs of Inl e \<Rightarrow> Inl e | Inr t \<Rightarrow> Inr (s @ '','' @ t))))"
| "elem_string JUndefined = Inr []"
| "elem_string JNull = Inr []"
| "elem_string (JBool b) = to_string (JBool b)"
| "elem_string (JNum n) = to_string (JNum n)"
| "elem_string (JStr s) = to_string (JStr s)"
| "elem_string (JArr xs) = to_string (JArr xs)"
| "elem_string (JObj ps) = to_string (JObj ps)"

text \<open>
  The method call \<^verbatim>\<open>v.toString()\<close>: as \<^verbatim>\<open>String(v)\<close>, but null and undefined have no
  members, and an own non-callable \<^verbatim>\<open>toString\<close> property cannot be called.
\<close>

fun toString_method :: "jsval \<Rightarrow> string result" where
  "toString_method JUndefined =
     Inl (TypeError ''Cannot read properties of undefined (reading toString)'')"
| "toString_method JNull =
     Inl (TypeError ''Cannot read properties of null (reading toString)'')"
| "toString_method (JObj ps) =
     (if ''toString'' \<in> fst ` set ps
      then Inl (TypeError ''toString is not a function'')
      else Inr ''[object Object]'')"
| "toString_method v = to_string v"

subsection \<open>Property reads\<close>

text \<open>
  An array index as a property key: \<^verbatim>\<open>0\<close>, or digits that do not start with \<^verbatim>\<open>0\<close>.
\<close>

definition index_of_key :: "string \<Rightarrow> nat option" where
  "index_of_key k =
     (if k = [] \<or> \<not> list_all is_digit k \<or> (hd k = CHR ''0'' \<and> length k > 1) then None
      else Some (digits_val 0 k))"

text \<open>
  \<^verbatim>\<open>v[k]\<close> and \<^verbatim>\<open>v.k\<close>: own properties of objects, elements and \<^verbatim>\<open>length\<close> of arrays and
  strings; a read on null or undefined throws.
\<close>

fun js_get :: "jsval \<Rightarrow> string \<Rightarrow> jsval result" where
  "js_get JUndefined k = Inl (TypeError (''Cannot read properties of undefined (reading '' @ k @ '')''))"
| "js_get JNull k = Inl (TypeError (''Cannot read properties of null (reading '' @ k @ '')''))"
| "js_get (JObj ps) k = Inr (case map_of ps k of Some v \<Rightarrow> v | None \<Rightarrow> JUndefined)"
| "js_get (JArr xs) k =
     Inr (if k = ''length'' then JNum (of_nat (length xs))
          else (case index_of_key k of
                  Some i \<Rightarrow> if i < length xs then xs ! i else JUndefined
                | None \<Rightarrow> JUndefined))"
| "js_get (JStr s) k =
     Inr (if k = ''length'' then JNum (of_nat (length s))
          else (case index_of_key k of
                  Some i \<Rightarrow> if i < length s then JStr [s ! i] else JUndefined
                | None \<Rightarrow> JUndefined))"
| "js_get (JBool b) k = Inr JUndefined"
| "js_get (JNum n) k = Inr JUndefined"

text \<open>The optional read \<^verbatim>\<open>v?.k\<close>: undefined on null and undefined.\<close>

definition js_get_opt :: "jsval \<Rightarrow> string \<Rightarrow> jsval" where
  "js_get_opt v k = (case js_get v k of Inl e \<Rightarrow> JUndefined | Inr x \<Rightarrow> x)"

fun js_typeof :: "jsval \<Rightarrow> string" where
  "js_typeof JUndefined = ''undefined''"
| "js_typeof JNull = ''object''"
| "js_typeof (JBool b) = ''boolean''"
| "js_typeof (JNum n) = ''number''"
| "js_typeof (JStr s) = ''string''"
| "js_typeof (JArr xs) = ''object''"
| "js_typeof (JObj ps) = ''object''"

text \<open>\<^verbatim>\<open>xs.map(f)\<close> for an \<open>f\<close> that may throw: the first exception ends the loop.\<close>

fun map_result :: "('a \<Rightarrow> 'b result) \<Rightarrow> 'a list \<Rightarrow> 'b list result" where
  "map_result f [] = Inr []"
| "map_result f (x # xs) =
     (case f x of
        Inl e \<Rightarrow> Inl e
      | Inr y \<Rightarrow> (case map_result f xs of Inl e \<Rightarrow> Inl e | Inr ys \<Rightarrow> Inr (y # ys)))"

section \<open>Value sanitizers\<close>

text \<open>
  Built-ins of the engine that the sanitizers and the error logger call and whose result
  the repository does not determine are parameters of the model:
  \<^item> \<open>date_toISOString v\<close> is \<^verbatim>\<open>new Date(v)\<close> followed by \<^verbatim>\<open>toISOString()\<close>: \<open>Inl\<close> when the
    conversion of \<open>v\<close> throws, \<open>Inr None\<close> when the time value is \<^verbatim>\<open>NaN\<close>;
  \<^item> \<open>json_parse s\<close> is \<^verbatim>\<open>JSON.parse(s)\<close>, \<open>None\<close> when it throws a SyntaxError;
  \<^item> \<open>json_stringify v\<close> is \<^verbatim>\<open>JSON.stringify(v)\<close> for a value other than undefined;
  \<^item> \<open>to_number v\<close> is the conversion \<^verbatim>\<open>ToNumber\<close> of a value that is no number: \<open>Inl\<close> when
    it throws, \<open>Inr None\<close> for \<^verbatim>\<open>NaN\<close>.
\<close>

record platform =
  date_toISOString :: "jsval \<Rightarrow> string option result"
  json_parse :: "string \<Rightarrow> jsval option"
  json_stringify :: "jsval \<Rightarrow> string"
  to_number :: "jsval \<Rightarrow> rat option result"

definition sanitizeText :: "jsval \<Rightarrow> jsval result" where
  "sanitizeText v =
     (if v = JNull \<or> v = JUndefined then Inr JNull
      else bind_result (toString_method v) (\<lambda>s. Inr (JStr (trim s))))"

text \<open>
  The pattern \<^verbatim>\<open>/^[^\s@]+@[^\s@]+\.[^\s@]+$/\<close>: a non-empty run without white space or
  \<^verbatim>\<open>@\<close>, an \<^verbatim>\<open>@\<close>, and a rest without white space or \<^verbatim>\<open>@\<close> that has a dot with at least
  one character on each side.
\<close>

definition email_char :: "char \<Rightarrow> bool" where
  "email_char c = (\<not> is_space c \<and> c \<noteq> CHR ''@'')"

definition emailRegex_test :: "string \<Rightarrow> bool" where
  "emailRegex_test s =
     (takeWhile email_char s \<noteq> [] \<and>
      (case dropWhile email_char s of
         [] \<Rightarrow> False
       | c # d \<Rightarrow> c = CHR ''@'' \<and> list_all email_char d \<and> CHR ''.'' \<in> set (butlast (tl d))))"

definition sanitizeEmail :: "jsval \<Rightarrow> jsval result" where
  "sanitizeEmail v =
     (if v = JNull \<or> v = JUndefined then Inr JNull
      else (case v of
              JStr s \<Rightarrow>
                (if s = [] then Inr (JObj [(''email'', JStr []), (''text'', JStr [])])
                 else (let sanitizedEmail = toLowerCase (trim s)
                       in Inr (JObj [(''email'', JStr (if emailRegex_test sanitizedEmail
                                                        then sanitizedEmail else [])),
                                     (''text'', JStr sanitizedEmail)])))
            | _ \<Rightarrow> Inr (JObj [(''email'', JStr []), (''text'', JStr [])])))"

definition sanitizePhone :: "jsval \<Rightarrow> jsval result" where
  "sanitizePhone v =
     (if v = JNull \<or> v = JUndefined then Inr JNull
      else if \<not> truthy v then Inr (JObj [(''phone'', JStr []), (''countryShortName'', JStr ''US'')])
      else bind_result (toString_method v)
             (\<lambda>s. Inr (JObj [(''phone'', JStr (filter is_digit s)),
                              (''countryShortName'', JStr ''US'')])))"

text \<open>
  \<^verbatim>\<open>sanitizeNumbers\<close>, lines 364-408. The test
  \<^verbatim>\<open>typeof value === 'object' && !Array.isArray(value) && !(value instanceof Date)\<close> holds of
  the plain objects (null has returned before).
\<close>

definition sanitizeNumbers :: "jsval \<Rightarrow> jsval result" where
  "sanitizeNumbers v =
     (if v = JNull \<or> v = JUndefined then Inr JNull
      else if v = JStr [] then Inr JNull
      else (case v of
              JObj ps \<Rightarrow> Inr JNull
            | _ \<Rightarrow>
              bind_result (to_string v) (\<lambda>strValue.
                let isNegative = startsWith (trim strValue) ''-'';
                    kept = filter (\<lambda>c. is_digit c \<or> c = CHR ''.'') strValue
                in if kept = [] then Inr JNull
                   else
                     (let parts = split_on (CHR ''.'') kept;
                          strValue2 = (if length parts > 2
                                       then hd parts @ ''.'' @ concat (tl parts) else kept);
                          numValue = (if CHR ''.'' \<in> set strValue2 then parseFloat strValue2
                                      else parseInt10 strValue2)
                      in (case numValue of
                            None \<Rightarrow> Inr JNull
                          | Some n \<Rightarrow> Inr (JNum (if isNegative then - n else n)))))))"

text \<open>\<^verbatim>\<open>date.toISOString().split('T')[0]\<close> is the part before the first \<^verbatim>\<open>T\<close>.\<close>

definition sanitizeDate :: "platform \<Rightarrow> jsval \<Rightarrow> jsval result" where
  "sanitizeDate pf v =
     (if v = JNull \<or> v = JUndefined then Inr JNull
      else if \<not> truthy v then Inr (JObj [(''date'', JNull)])
      else bind_result (date_toISOString pf v) (\<lambda>d.
             case d of
               None \<Rightarrow> Inr (JObj [(''date'', JNull)])
             | Some isoText \<Rightarrow> Inr (JObj [(''date'', JStr (hd (split_on (CHR ''T'') isoText)))])))"

definition sanitizeStatus :: "jsval \<Rightarrow> jsval result" where
  "sanitizeStatus v =
     (if v = JNull \<or> v = JUndefined then Inr JNull
      else if \<not> truthy v then Inr (JObj [(''label'', JStr [])])
      else bind_result (toString_method v) (\<lambda>s. Inr (JObj [(''label'', JStr (trim s))])))"

text \<open>The callback \<^verbatim>\<open>v => v.toString().trim()\<close> of \<^verbatim>\<open>sanitizeDropdown\<close>.\<close>

definition trimmed_string :: "jsval \<Rightarrow> string result" where
  "trimmed_string v = bind_result (toString_method v) (\<lambda>s. Inr (trim s))"

definition sanitizeDropdown :: "jsval \<Rightarrow> jsval result" where
  "sanitizeDropdown v =
     (if v = JNull \<or> v = JUndefined then Inr JNull
      else if \<not> truthy v then Inr (JObj [(''labels'', JArr [])])
      else (case v of
              JArr xs \<Rightarrow>
                bind_result (map_result trimmed_string xs)
                  (\<lambda>ls. Inr (JObj [(''labels'', JArr (map JStr (filter (\<lambda>l. l \<noteq> []) ls)))]))
            | JStr s \<Rightarrow>
                Inr (JObj [(''labels'',
                  JArr (map JStr (filter (\<lambda>l. l \<noteq> []) (map trim (split_on (CHR '','') s)))))])
            | _ \<Rightarrow>
                bind_result (trimmed_string v) (\<lambda>l. Inr (JObj [(''labels'', JArr [JStr l])]))))"

definition sanitizeCheckbox :: "jsval \<Rightarrow> jsval result" where
  "sanitizeCheckbox v =
     (if v = JNull \<or> v = JUndefined then Inr JNull
      else Inr (JObj [(''checked'', JBool (truthy v))]))"

text \<open>
  \<^verbatim>\<open>sanitizeLocation\<close>, lines 454-477. A string is parsed as JSON first; the parsed value
  replaces the input, whatever it is, and a string that does not parse is an address.
  The reads follow the order of evaluation of lines 468-473.
\<close>

definition location_of_object :: "jsval \<Rightarrow> jsval result" where
  "location_of_object v =
     (if js_typeof v = ''object'' then
        bind_result (js_get v ''lat'') (\<lambda>lat.
        bind_result (js_get v ''latitude'') (\<lambda>latitude.
        bind_result (js_get v ''lng'') (\<lambda>lng.
        bind_result (js_get v ''longitude'') (\<lambda>longitude.
        bind_result (js_get v ''address'') (\<lambda>address.
          if truthy (js_or lat latitude) \<and> truthy (js_or lng longitude) then
            bind_result (toString_method (js_or lat latitude)) (\<lambda>la.
            bind_result (toString_method (js_or lng longitude)) (\<lambda>lo.
              Inr (JObj [(''lat'', JStr la), (''lng'', JStr lo),
                         (''address'', js_or address (JStr []))])))
          else Inr JNull)))))
      else Inr JNull)"

definition sanitizeLocation :: "platform \<Rightarrow> jsval \<Rightarrow> jsval result" where
  "sanitizeLocation pf v =
     (if v = JNull \<or> v = JUndefined then Inr JNull
      else (case v of
              JStr s \<Rightarrow>
                (case json_parse pf s of
                   None \<Rightarrow> Inr (JObj [(''address'', JStr s)])
                 | Some parsed \<Rightarrow> location_of_object parsed)
            | _ \<Rightarrow> location_of_object v))"

text \<open>
  \<^verbatim>\<open>sanitizeBoardRelation\<close>, lines 479-490: \<^verbatim>\<open>value.item_ids.map\<close> exists on arrays only.
\<close>

definition sanitizeBoardRelation :: "jsval \<Rightarrow> jsval result" where
  "sanitizeBoardRelation v =
     (if v = JNull \<or> v = JUndefined then Inr JNull
      else if \<not> truthy v then Inr JNull
      else bind_result (js_get v ''item_ids'') (\<lambda>ids.
             if \<not> truthy ids then Inr JNull
             else (case ids of
                     JArr xs \<Rightarrow>
                       bind_result (map_result toString_method xs)
                         (\<lambda>ss. Inr (JObj [(''item_ids'', JArr (map JStr ss))]))
                   | _ \<Rightarrow> Inl (TypeError ''value.item_ids.map is not a function''))))"

text \<open>\<^verbatim>\<open>sanitizeValueForColumnType\<close>, lines 583-610; \<open>columnType\<close> is \<^verbatim>\<open>column.type\<close>.\<close>

definition sanitizeValueForColumnType :: "platform \<Rightarrow> jsval \<Rightarrow> jsval \<Rightarrow> jsval result" where
  "sanitizeValueForColumnType pf v columnType =
     (if columnType = JStr ''text'' then sanitizeText v
      else if columnType = JStr ''long_text'' then sanitizeText v
      else if columnType = JStr ''email'' then sanitizeEmail v
      else if columnType = JStr ''phone'' then sanitizePhone v
      else if columnType = JStr ''numbers'' then sanitizeNumbers v
      else if columnType = JStr ''date'' then sanitizeDate pf v
      else if columnType = JStr ''status'' then sanitizeStatus v
      else if columnType = JStr ''dropdown'' then sanitizeDropdown v
      else if columnType = JStr ''checkbox'' then sanitizeCheckbox v
      else if columnType = JStr ''location'' then sanitizeLocation pf v
      else if columnType = JStr ''board_relation'' then sanitizeBoardRelation v
      else Inr v)"

section \<open>The mapping engine\<close>

subsection \<open>Path resolution\<close>

text \<open>
  \<^verbatim>\<open>getNestedValue\<close>, lines 684-688: the reducer
  \<^verbatim>\<open>current && current[key] !== undefined ? current[key] : undefined\<close> reads \<open>key\<close> on a
  truthy \<open>current\<close> and gives undefined on a falsy one; the fold runs over every segment.
  The read is that of an own property. Where a segment names a member that the value
  inherits from a built-in prototype (\<^verbatim>\<open>constructor\<close>, \<^verbatim>\<open>toString\<close>, ...) the code reads that
  member, which is no value of the model; such paths are outside the model, and
  \<open>prototype_members\<close> below lists the names concerned.
\<close>

definition nested_step :: "jsval \<Rightarrow> string \<Rightarrow> jsval" where
  "nested_step current k = (if truthy current then js_get_opt current k else JUndefined)"

definition getNestedValue :: "jsval \<Rightarrow> string \<Rightarrow> jsval" where
  "getNestedValue obj path = foldl nested_step obj (split_on (CHR ''.'') path)"

subsection \<open>Field rules on a heap\<close>

text \<open>
  \<^verbatim>\<open>populateConfigValues\<close> copies each Field Rule and assigns to the copy. Whether the caller's
  objects change depends on which object an assignment reaches, so the Field Rule objects
  live in a heap: a list of objects, the address of an object being its index, and an
  allocation appending to the list. A mapping configuration is the list of its entries,
  each the address of its Field Rule. The values inside a rule, and the external data, are
  never assigned to and stay trees. An address outside the heap cannot arise in a run; the
  model reads it as an object with no property.
\<close>

type_synonym heap = "props list"
type_synonym config = "(string \<times> nat) list"

definition obj_at :: "heap \<Rightarrow> nat \<Rightarrow> props" where
  "obj_at h a = (if a < length h then h ! a else [])"

text \<open>The read \<^verbatim>\<open>o.k\<close> on an object given by its properties.\<close>

definition get_own :: "props \<Rightarrow> string \<Rightarrow> jsval" where
  "get_own ps k = (case map_of ps k of Some v \<Rightarrow> v | None \<Rightarrow> JUndefined)"

text \<open>
  The assignment \<^verbatim>\<open>o[k] = v\<close> on a plain object: a present key keeps its place, a new key
  goes last. The key \<^verbatim>\<open>__proto__\<close> sets the prototype and creates no property. (The engine
  lists keys that are array indices first; that reordering is not modelled.)
\<close>

definition set_own :: "string \<Rightarrow> 'a \<Rightarrow> (string \<times> 'a) list \<Rightarrow> (string \<times> 'a) list" where
  "set_own k v ps = (if k = ''__proto__'' then ps else AList.update k v ps)"

text \<open>
  \<^verbatim>\<open>populateConfigValues\<close>, lines 659-676, one iteration per entry. \<open>populated\<close> is
  \<^verbatim>\<open>populatedConfig\<close>; \<open>copy\<close> is the address of \<^verbatim>\<open>{ ...configData }\<close>. A truthy \<^verbatim>\<open>remote_key\<close>
  that is not a string has no \<^verbatim>\<open>split\<close> method.
\<close>

fun populate_entries :: "heap \<Rightarrow> config \<Rightarrow> config \<Rightarrow> jsval \<Rightarrow> (heap \<times> config) result" where
  "populate_entries h populated [] externalData = Inr (h, populated)"
| "populate_entries h populated ((configKey, a) # rest) externalData =
     (let configData = obj_at h a;
          copy = length h;
          h1 = h @ [configData];
          populated1 = set_own configKey copy populated
      in if truthy (get_own configData ''in_remote'') \<and> truthy (get_own configData ''remote_key'')
         then (case get_own configData ''remote_key'' of
                 JStr path \<Rightarrow>
                   (let remoteValue = getNestedValue externalData path
                    in if remoteValue \<noteq> JUndefined
                       then populate_entries
                              (h1[copy := AList.update ''value'' remoteValue configData])
                              populated1 rest externalData
                       else populate_entries h1 populated1 rest externalData)
               | _ \<Rightarrow> Inl (TypeError ''path.split is not a function''))
         else populate_entries h1 populated1 rest externalData)"

definition populateConfigValues :: "heap \<Rightarrow> config \<Rightarrow> jsval \<Rightarrow> (heap \<times> config) result" where
  "populateConfigValues h mappingConfig externalData =
     populate_entries h [] mappingConfig externalData"

subsection \<open>Tags and the schema map\<close>

text \<open>
  The pattern \<^verbatim>\<open>/\{+([^{}]+)\}+/g\<close> at the head of a string: the whole run of opening braces,
  then the whole run of characters that are no braces, then the whole run of closing
  braces, each run non-empty. The greedy quantifiers take whole runs, and giving back a
  character never helps: after a shorter run of opening braces comes an opening brace,
  which the class rejects, and after a shorter body comes a body character, which is no
  closing brace. \<open>match_at\<close> gives the matched text and the rest of the string.
\<close>

definition is_open :: "char \<Rightarrow> bool" where
  "is_open c = (c = CHR ''{'')"

definition is_close :: "char \<Rightarrow> bool" where
  "is_close c = (c = CHR ''}'')"

definition is_body :: "char \<Rightarrow> bool" where
  "is_body c = (c \<noteq> CHR ''{'' \<and> c \<noteq> CHR ''}'')"

definition match_at :: "string \<Rightarrow> (string \<times> string) option" where
  "match_at s =
     (let opens = takeWhile is_open s; r1 = dropWhile is_open s;
          body = takeWhile is_body r1; r2 = dropWhile is_body r1;
          closes = takeWhile is_close r2; r3 = dropWhile is_close r2
      in if opens \<noteq> [] \<and> body \<noteq> [] \<and> closes \<noteq> [] then Some (opens @ body @ closes, r3)
         else None)"

text \<open>
  \<^verbatim>\<open>description.match(/\{+([^{}]+)\}+/g)\<close>: the matches from left to right, the search
  resuming after a match and one character further where there is none. No match gives
  \<^verbatim>\<open>null\<close>, which the code skips like an empty list.
\<close>

function match_tags :: "string \<Rightarrow> string list" where
  "match_tags [] = []"
| "match_tags (c # cs) =
     (case match_at (c # cs) of
        Some (m, rest) \<Rightarrow> m # match_tags rest
      | None \<Rightarrow> match_tags cs)"
  by pat_completeness auto
termination
proof (relation "measure length", goal_cases)
  case 1
  show ?case by simp
next
  case (2 c cs)
  show ?case by simp
next
  case (3 c cs x2 m rest)
  have l: "length (dropWhile P xs) \<le> length xs" for P and xs :: string
    by (induction xs) auto
  from 3 have a: "match_at (c # cs) = Some (m, rest)" by simp
  then have r: "rest = dropWhile is_close (dropWhile is_body (dropWhile is_open (c # cs)))"
    and o: "takeWhile is_open (c # cs) \<noteq> []"
    by (auto simp: match_at_def Let_def split: if_splits)
  from o have "length (dropWhile is_open (c # cs)) < length (c # cs)"
    by (auto simp: le_imp_less_Suc l split: if_splits)
  moreover have "length rest \<le> length (dropWhile is_open (c # cs))"
    unfolding r using l le_trans by blast
  ultimately show ?case by simp
qed

declare match_tags.simps [simp del]

text \<open>\<^verbatim>\<open>match.replace(/^\{+|\}+$/g, '')\<close>: without the leading opening and the trailing closing braces.\<close>

definition strip_braces :: "string \<Rightarrow> string" where
  "strip_braces m = rev (dropWhile is_close (rev (dropWhile is_open m)))"

record column_info =
  col_id :: jsval
  col_title :: jsval
  col_type :: jsval
  col_settings_str :: jsval

type_synonym column_map = "(string \<times> column_info) list"

text \<open>
  The body of \<^verbatim>\<open>columns.forEach\<close>, lines 550-567, for one column. \<^verbatim>\<open>Map.set\<close> replaces the
  value of a present key in place and appends a new key.
\<close>

definition descriptor_of :: "jsval \<Rightarrow> column_info" where
  "descriptor_of column =
     \<lparr> col_id = js_get_opt column ''id'',
       col_title = js_get_opt column ''title'',
       col_type = js_get_opt column ''type'',
       col_settings_str = js_get_opt column ''settings_str'' \<rparr>"

definition add_column :: "column_map \<Rightarrow> jsval \<Rightarrow> column_map result" where
  "add_column columnMap column =
     bind_result (js_get column ''description'') (\<lambda>d.
       case js_or d (JStr []) of
         JStr description \<Rightarrow>
           Inr (foldl (\<lambda>m matched. AList.update (strip_braces matched) (descriptor_of column) m)
                      columnMap (match_tags description))
       | _ \<Rightarrow> Inl (TypeError ''description.match is not a function''))"

fun add_columns :: "column_map \<Rightarrow> jsval list \<Rightarrow> column_map result" where
  "add_columns columnMap [] = Inr columnMap"
| "add_columns columnMap (column # columns) =
     (case add_column columnMap column of
        Inl e \<Rightarrow> Inl e
      | Inr columnMap1 \<Rightarrow> add_columns columnMap1 columns)"

definition build_column_map :: "jsval \<Rightarrow> column_map result" where
  "build_column_map columns =
     (case columns of
        JArr cs \<Rightarrow> add_columns [] cs
      | _ \<Rightarrow> Inl (TypeError ''columns.forEach is not a function''))"

section \<open>The remote gateway\<close>

text \<open>
  What the \<^verbatim>\<open>fetch\<close> of \<^verbatim>\<open>MondayApiClient.query\<close> comes back with:
  \<^item> \<open>FetchRejected msg code\<close>: \<^verbatim>\<open>fetch\<close> threw an error with this message and \<^verbatim>\<open>code\<close>;
  \<^item> \<open>HttpFailure status statusText errorText\<close>: a response whose \<^verbatim>\<open>ok\<close> is false, with the
    text of its body (\<^verbatim>\<open>Unknown error\<close> when reading it fails);
  \<^item> \<open>BodyNotJson msg\<close>: \<^verbatim>\<open>response.json()\<close> threw an error with this message;
  \<^item> \<open>Body result\<close>: the parsed body.
\<close>

datatype http_outcome =
    FetchRejected string jsval
  | HttpFailure nat string string
  | BodyNotJson string
  | Body jsval

text \<open>The comparison \<^verbatim>\<open>v > 0\<close>.\<close>

definition greater_than_zero :: "platform \<Rightarrow> jsval \<Rightarrow> bool result" where
  "greater_than_zero pf v =
     (case v of
        JNum n \<Rightarrow> Inr (n > 0)
      | _ \<Rightarrow> bind_result (to_number pf v)
               (\<lambda>n. Inr (case n of None \<Rightarrow> False | Some r \<Rightarrow> r > 0)))"

text \<open>
  The function that \<^verbatim>\<open>query\<close> hands to \<^verbatim>\<open>withRetry\<close>, lines 154-218, after the \<^verbatim>\<open>fetch\<close>.
  Line 197 interpolates \<^verbatim>\<open>result.errors[0].message\<close> into the message, line 200 calls
  \<^verbatim>\<open>toLowerCase\<close> on it, which only a string has. The \<^verbatim>\<open>response\<close> fields that lines 184 and
  208 attach to the error are not kept, apart from the \<^verbatim>\<open>extensions\<close> of the body.
\<close>

definition query_attempt :: "platform \<Rightarrow> http_outcome \<Rightarrow> jsval result" where
  "query_attempt pf outcome =
     (case outcome of
        FetchRejected msg code \<Rightarrow> Inl (NetworkError (''Network error: '' @ msg) code)
      | HttpFailure status statusText errorText \<Rightarrow>
          Inl (HttpError (''Monday API HTTP error: '' @ nat_to_string status @ '' '' @
                          statusText @ '' - '' @ errorText) status)
      | BodyNotJson msg \<Rightarrow> Inl (Error (''Failed to parse Monday API response: '' @ msg))
      | Body result \<Rightarrow>
          bind_result (js_get result ''errors'') (\<lambda>errors.
            if \<not> truthy errors then Inr result
            else
              bind_result (js_get errors ''length'') (\<lambda>len.
              bind_result (greater_than_zero pf len) (\<lambda>nonempty.
                if \<not> nonempty then Inr result
                else
                  bind_result (js_get errors ''0'') (\<lambda>first.
                  bind_result (js_get first ''message'') (\<lambda>message.
                  bind_result (to_string message) (\<lambda>text.
                    case message of
                      JStr m \<Rightarrow>
                        Inl (GraphQLError (''Monday GraphQL error: '' @ text)
                               (if includes_str (toLowerCase m) ''complexity'' \<or>
                                   includes_str (toLowerCase m) ''rate limit''
                                then Some ''COMPLEXITY_ERROR'' else None)
                               (js_get_opt result ''data'')
                               errors
                               (js_get_opt result ''extensions''))
                    | JUndefined \<Rightarrow>
                        Inl (TypeError ''Cannot read properties of undefined (reading toLowerCase)'')
                    | JNull \<Rightarrow>
                        Inl (TypeError ''Cannot read properties of null (reading toLowerCase)'')
                    | _ \<Rightarrow>
                        Inl (TypeError ''result.errors[0].message.toLowerCase is not a function''))))))))"

text \<open>
  \<^verbatim>\<open>withRetry\<close>, lines 90-133, applied to the outcome of the one call of \<^verbatim>\<open>fn\<close>. The retry
  loop and the final \<^verbatim>\<open>throw lastError\<close> are commented out: the \<^verbatim>\<open>catch\<close> block logs a warning,
  sleeps 45 seconds and falls off the end of the function, which then returns undefined.
\<close>

definition withRetry :: "jsval result \<Rightarrow> jsval" where
  "withRetry r = (case r of Inr result \<Rightarrow> result | Inl error \<Rightarrow> JUndefined)"

record request =
  req_query :: string
  req_variables :: props

type_synonym network = "request \<Rightarrow> http_outcome"

text \<open>
  The state the operations share:
  \<^item> \<open>objects\<close>: the heap of Field Rule objects;
  \<^item> \<open>board_columns\<close>: the plain object \<^verbatim>\<open>MondayApiClient.board_columns\<close>;
  \<^item> \<open>columnSettingsCache\<close>: the \<^verbatim>\<open>Map\<close> of \<^verbatim>\<open>MondayDynamicMapper\<close>;
  \<^item> \<open>requests\<close>: the requests sent to the remote so far, oldest first.
\<close>

record world =
  objects :: heap
  board_columns :: props
  columnSettingsCache :: "(string \<times> column_map) list"
  requests :: "request list"

text \<open>
  \<^verbatim>\<open>MondayApiClient.query\<close>, lines 153-219: one request, whose outcome the network decides.
  The request body carries \<^verbatim>\<open>variables\<close> only when it has a key; an empty \<open>req_variables\<close> is
  a request without variables.
\<close>

definition query :: "platform \<Rightarrow> network \<Rightarrow> world \<Rightarrow> string \<Rightarrow> props \<Rightarrow> world \<times> jsval" where
  "query pf net w q variables =
     (let r = \<lparr> req_query = q, req_variables = variables \<rparr>
      in (w\<lparr> requests := requests w @ [r] \<rparr>, withRetry (query_attempt pf (net r))))"

text \<open>
  A board id is a number; \<^verbatim>\<open>boardId.toString()\<close>, the property key \<^verbatim>\<open>boardId\<close> and the
  interpolation in \<^verbatim>\<open>board_${boardId}\<close> all are its decimal numeral. The two GraphQL documents
  are written with every run of white space of the source as one blank.
\<close>

definition int_to_string :: "int \<Rightarrow> string" where
  "int_to_string i = (if i < 0 then ''-'' @ nat_to_string (nat (- i)) else nat_to_string (nat i))"

definition GetBoardColumns_query :: string where
  "GetBoardColumns_query =
     ''query GetBoardColumns($boardId: ID!) { boards(ids: [$boardId]) { columns { id title type description settings_str } } }''"

definition CreateItem_mutation :: string where
  "CreateItem_mutation =
     ''mutation CreateItem($boardId: ID!, $itemName: String!, $columnValues: JSON!, $createLabels: Boolean!) { create_item(board_id: $boardId item_name: $itemName column_values: $columnValues create_labels_if_missing: $createLabels) { id name } }''"

text \<open>
  \<^verbatim>\<open>getBoardColumns\<close>, lines 289-318. \<^verbatim>\<open>board_columns\<close> is initialised by the constructor, so
  the first test never throws. The key of a board is a decimal numeral, which names no
  inherited member, so \<^verbatim>\<open>boardId in this.board_columns\<close> tests for an own property.
  Line 314 reads \<^verbatim>\<open>response.data\<close> without a guard on
  \<^verbatim>\<open>response\<close>; the optional chain after it gives undefined at the first null or undefined.
\<close>

definition getBoardColumns :: "platform \<Rightarrow> network \<Rightarrow> world \<Rightarrow> int \<Rightarrow> world \<times> jsval result" where
  "getBoardColumns pf net w boardId =
     (let k = int_to_string boardId
      in case map_of (board_columns w) k of
           Some cached \<Rightarrow> (w, Inr cached)
         | None \<Rightarrow>
             (let (w1, response) = query pf net w GetBoardColumns_query [(''boardId'', JStr k)]
              in case js_get response ''data'' of
                   Inl e \<Rightarrow> (w1, Inl e)
                 | Inr d \<Rightarrow>
                     (let columns =
                            js_or (js_get_opt (js_get_opt (js_get_opt d ''boards'') ''0'') ''columns'')
                                  (JArr [])
                      in (w1\<lparr> board_columns := set_own k columns (board_columns w1) \<rparr>,
                          Inr columns))))"

text \<open>
  \<^verbatim>\<open>createItem\<close>, lines 229-254 (the three \<^verbatim>\<open>console.log\<close> lines have no effect on the result).
\<close>

definition createItem ::
  "platform \<Rightarrow> network \<Rightarrow> world \<Rightarrow> int \<Rightarrow> string \<Rightarrow> props \<Rightarrow> bool \<Rightarrow> world \<times> jsval" where
  "createItem pf net w boardId itemName columnValues createLabels =
     query pf net w CreateItem_mutation
       [(''boardId'', JStr (int_to_string boardId)),
        (''itemName'', JStr itemName),
        (''columnValues'', JStr (json_stringify pf (JObj columnValues))),
        (''createLabels'', JBool createLabels)]"

section \<open>The schema cache\<close>

definition cacheKey_of :: "int \<Rightarrow> string" where
  "cacheKey_of boardId = ''board_'' @ int_to_string boardId"

text \<open>
  \<^verbatim>\<open>fetchBoardColumnSettings\<close>, lines 539-575. Whatever is thrown inside the \<^verbatim>\<open>try\<close> is
  rethrown as a new \<^verbatim>\<open>Error\<close>; the cache is written only after the map is built.
\<close>

definition fetch_failed :: "int \<Rightarrow> js_error \<Rightarrow> js_error" where
  "fetch_failed boardId e =
     Error (''Failed to fetch column settings for board '' @ int_to_string boardId @ '': '' @
            error_message e)"

definition fetchBoardColumnSettings ::
  "platform \<Rightarrow> network \<Rightarrow> world \<Rightarrow> int \<Rightarrow> world \<times> column_map result" where
  "fetchBoardColumnSettings pf net w boardId =
     (let cacheKey = cacheKey_of boardId
      in case map_of (columnSettingsCache w) cacheKey of
           Some columnMap \<Rightarrow> (w, Inr columnMap)
         | None \<Rightarrow>
             (let (w1, r) = getBoardColumns pf net w boardId
              in case r of
                   Inl e \<Rightarrow> (w1, Inl (fetch_failed boardId e))
                 | Inr columns \<Rightarrow>
                     (case build_column_map columns of
                        Inl e \<Rightarrow> (w1, Inl (fetch_failed boardId e))
                      | Inr columnMap \<Rightarrow>
                          (w1\<lparr> columnSettingsCache :=
                                  AList.update cacheKey columnMap (columnSettingsCache w1) \<rparr>,
                           Inr columnMap))))"

text \<open>
  \<^verbatim>\<open>clearColumnCache\<close>, lines 715-721; \<open>None\<close> is a call without argument (or with null). The
  test \<^verbatim>\<open>if (boardId)\<close> fails for the number 0 too.
\<close>

definition clearColumnCache :: "world \<Rightarrow> int option \<Rightarrow> world" where
  "clearColumnCache w boardId =
     (case boardId of
        Some b \<Rightarrow>
          (if b \<noteq> 0
           then w\<lparr> columnSettingsCache := AList.delete (cacheKey_of b) (columnSettingsCache w) \<rparr>
           else w\<lparr> columnSettingsCache := [] \<rparr>)
      | None \<Rightarrow> w\<lparr> columnSettingsCache := [] \<rparr>)"

section \<open>Building the payload\<close>

text \<open>
  The loop of \<^verbatim>\<open>processMapping\<close>, lines 629-648, one iteration per entry of the populated
  configuration; \<open>columnValues\<close> is the payload so far. The key of
  \<^verbatim>\<open>columnValues[columnInfo.id]\<close> is the string of the id.
\<close>

fun build_column_values ::
  "platform \<Rightarrow> heap \<Rightarrow> column_map \<Rightarrow> props \<Rightarrow> config \<Rightarrow> props result" where
  "build_column_values pf h columnMap columnValues [] = Inr columnValues"
| "build_column_values pf h columnMap columnValues ((configKey, a) # rest) =
     (let configData = obj_at h a
      in if \<not> truthy (get_own configData ''in_monday'')
         then build_column_values pf h columnMap columnValues rest
         else (case map_of columnMap configKey of
                 None \<Rightarrow> build_column_values pf h columnMap columnValues rest
               | Some columnInfo \<Rightarrow>
                   (case sanitizeValueForColumnType pf (get_own configData ''value'')
                           (col_type columnInfo) of
                      Inl e \<Rightarrow> Inl e
                    | Inr sanitizedValue \<Rightarrow>
                        (if sanitizedValue \<noteq> JNull
                         then (case to_string (col_id columnInfo) of
                                 Inl e \<Rightarrow> Inl e
                               | Inr k \<Rightarrow>
                                   build_column_values pf h columnMap
                                     (set_own k sanitizedValue columnValues) rest)
                         else build_column_values pf h columnMap columnValues rest))))"

text \<open>
  \<^verbatim>\<open>processMapping\<close>, lines 619-651. When \<^verbatim>\<open>populateConfigValues\<close> throws, the copies it has
  made are unreachable, and the state is returned as it was.
\<close>

definition processMapping ::
  "platform \<Rightarrow> network \<Rightarrow> world \<Rightarrow> config \<Rightarrow> jsval \<Rightarrow> int \<Rightarrow> world \<times> props result" where
  "processMapping pf net w mappingConfig externalData boardId =
     (case populateConfigValues (objects w) mappingConfig externalData of
        Inl e \<Rightarrow> (w, Inl e)
      | Inr (h1, populatedConfig) \<Rightarrow>
          (let (w2, r) = fetchBoardColumnSettings pf net (w\<lparr> objects := h1 \<rparr>) boardId
           in case r of
                Inl e \<Rightarrow> (w2, Inl e)
              | Inr columnMap \<Rightarrow>
                  (w2, build_column_values pf (objects w2) columnMap [] populatedConfig)))"

section \<open>The error logger\<close>

text \<open>
  \<^verbatim>\<open>JSON.parse(JSON.stringify(v))\<close> on a tree: a property whose value is undefined is left
  out, an undefined array element becomes null. \<^verbatim>\<open>JSON.stringify(undefined)\<close> is undefined,
  which \<^verbatim>\<open>JSON.parse\<close> rejects.
\<close>

fun json_value :: "jsval \<Rightarrow> jsval"
  and json_elems :: "jsval list \<Rightarrow> jsval list"
  and json_props :: "props \<Rightarrow> props"
where
  "json_value (JArr xs) = JArr (json_elems xs)"
| "json_value (JObj ps) = JObj (json_props ps)"
| "json_value JUndefined = JUndefined"
| "json_value JNull = JNull"
| "json_value (JBool b) = JBool b"
| "json_value (JNum n) = JNum n"
| "json_value (JStr s) = JStr s"
| "json_elems [] = []"
| "json_elems (x # xs) = (if x = JUndefined then JNull else json_value x) # json_elems xs"
| "json_props [] = []"
| "json_props (p # ps) =
     (if snd p = JUndefined then json_props ps else (fst p, json_value (snd p)) # json_props ps)"

definition json_clone :: "jsval \<Rightarrow> jsval result" where
  "json_clone v =
     (if v = JUndefined then Inl (SyntaxError ''undefined is not valid JSON'')
      else Inr (json_value v))"

text \<open>
  The assignment \<^verbatim>\<open>column.value = v\<close> in the strict code of a class body, giving the column
  after it. It throws on null and undefined and on a primitive. An array takes the named
  property, which the tree of its elements does not show; an array has no \<^verbatim>\<open>monday_id\<close>, so
  the loop below skips it whatever its \<^verbatim>\<open>value\<close>.
\<close>

fun assign_value :: "jsval \<Rightarrow> jsval \<Rightarrow> jsval result" where
  "assign_value (JObj ps) v = Inr (JObj (set_own ''value'' v ps))"
| "assign_value (JArr xs) v = Inr (JArr xs)"
| "assign_value JUndefined v = Inl (TypeError ''Cannot set properties of undefined (setting value)'')"
| "assign_value JNull v = Inl (TypeError ''Cannot set properties of null (setting value)'')"
| "assign_value (JBool b) v = Inl (TypeError ''Cannot create property value on boolean'')"
| "assign_value (JNum n) v = Inl (TypeError ''Cannot create property value on number'')"
| "assign_value (JStr s) v = Inl (TypeError ''Cannot create property value on string'')"

text \<open>The statement \<^verbatim>\<open>workingColumns.k.value = v\<close>, giving \<^verbatim>\<open>workingColumns\<close> after it.\<close>

definition set_column_value :: "string \<Rightarrow> jsval \<Rightarrow> jsval \<Rightarrow> jsval result" where
  "set_column_value k v workingColumns =
     bind_result (js_get workingColumns k) (\<lambda>column.
     bind_result (assign_value column v) (\<lambda>column1.
       Inr (case workingColumns of
              JObj ps \<Rightarrow> JObj (AList.update k column1 ps)
            | _ \<Rightarrow> workingColumns)))"

fun set_column_values :: "(string \<times> jsval) list \<Rightarrow> jsval \<Rightarrow> jsval result" where
  "set_column_values [] workingColumns = Inr workingColumns"
| "set_column_values ((k, v) # kvs) workingColumns =
     (case set_column_value k v workingColumns of
        Inl e \<Rightarrow> Inl e
      | Inr workingColumns1 \<Rightarrow> set_column_values kvs workingColumns1)"

text \<open>
  The loop \<^verbatim>\<open>for (const key in workingColumns)\<close>, lines 779-806, over the properties that are
  left to visit; \<open>columnValues\<close> is the payload so far.
\<close>

fun error_column_values :: "props \<Rightarrow> props \<Rightarrow> props result" where
  "error_column_values columnValues [] = Inr columnValues"
| "error_column_values columnValues ((k, column) # rest) =
     bind_result (js_get column ''monday_id'') (\<lambda>mid.
     bind_result (js_get column ''monday_type'') (\<lambda>mty.
     bind_result (js_get column ''value'') (\<lambda>v.
       let mondayColId = js_or mid (JStr []);
           mondayColType = js_or mty (JStr []);
           mondayVal = js_or v (JStr [])
       in if \<not> truthy mondayColId then error_column_values columnValues rest
          else if mondayColType = JStr ''mirror'' then error_column_values columnValues rest
          else
            bind_result (if mondayColType = JStr ''numbers'' then sanitizeNumbers mondayVal
                         else Inr mondayVal) (\<lambda>mondayVal1.
              if \<not> truthy mondayVal1 \<and> mondayVal1 \<noteq> JNum 0
              then error_column_values columnValues rest
              else bind_result (to_string mondayColId) (\<lambda>colKey.
                     error_column_values (set_own colKey mondayVal1 columnValues) rest)))))"

text \<open>
  The part of \<^verbatim>\<open>logError\<close> before its \<^verbatim>\<open>try\<close> block, lines 749-806: the error name, the
  description, and the payload. The eight assignments of lines 767-774 are taken in order;
  their right-hand sides cannot throw. \<^verbatim>\<open>workingColumns\<close> is an object once they have all
  succeeded.
\<close>

definition unconfigured :: string where
  "unconfigured = CHR 0xC0 # '' configurer''"

record prepared =
  errorName :: string
  descriptionText :: jsval
  columnValues :: props

definition logError_prepare :: "platform \<Rightarrow> jsval \<Rightarrow> jsval \<Rightarrow> prepared result" where
  "logError_prepare pf columns errorData =
     bind_result (js_get errorData ''projectName'') (\<lambda>projectName.
     bind_result (js_get errorData ''clientName'') (\<lambda>clientName.
     bind_result (js_get errorData ''workflow'') (\<lambda>workflow.
     bind_result (js_get errorData ''error'') (\<lambda>err.
     bind_result (js_get errorData ''description'') (\<lambda>description.
     bind_result (js_get errorData ''errorType'') (\<lambda>errorType0.
     bind_result (js_get errorData ''clientWarnEmail'') (\<lambda>clientWarnEmail.
     bind_result (js_get errorData ''payload'') (\<lambda>payload.
     bind_result (to_string projectName) (\<lambda>s1.
     bind_result (to_string clientName) (\<lambda>s2.
     bind_result (to_string workflow) (\<lambda>s3.
     bind_result (to_string err) (\<lambda>s4.
       let errorType = (if errorType0 = JUndefined then JStr ''dev'' else errorType0);
           name = s1 @ '' - '' @ s2 @ '' - '' @ s3 @ '' - '' @ s4
       in bind_result (json_clone columns) (\<lambda>workingColumns0.
          bind_result
            (set_column_values
               [(''client'', js_or clientName (JStr unconfigured)),
                (''client_warn_email'', js_or clientWarnEmail (JStr [])),
                (''description'', js_or description (JStr name)),
                (''erreur'', JStr name),
                (''payload'', (case payload of
                                 JStr s \<Rightarrow> JStr s
                               | _ \<Rightarrow> JStr (json_stringify pf (js_or payload (JObj []))))),
                (''workflow'', workflow),
                (''projet'', js_or projectName (JStr unconfigured)),
                (''error_type'', errorType)]
               workingColumns0) (\<lambda>workingColumns.
          bind_result
            (case workingColumns of
               JObj ps \<Rightarrow> error_column_values [] ps
             | _ \<Rightarrow> Inr []) (\<lambda>cvs.
            Inr \<lparr> errorName = name,
                  descriptionText = js_or description (JStr name),
                  columnValues = cvs \<rparr>)))))))))))))))"

text \<open>
  What a \<^verbatim>\<open>throw\<close> or a rejected promise carries: an Error object, or any other value. The
  code of the repository and the engine throw Error objects only, which is what \<open>result\<close>
  records; a gateway handed to the logger may throw, or reject with, any value at all.
  \<open>ErrorObject\<close> is an Error object, whose \<^verbatim>\<open>message\<close> is a string; \<open>ThrownValue\<close> is any
  other thrown value, of which the \<^verbatim>\<open>catch\<close> block reads the property \<^verbatim>\<open>message\<close> and no more.
\<close>

datatype thrown = ErrorObject js_error | ThrownValue jsval

text \<open>
  The interpolation \<^verbatim>\<open>${error.message}\<close> of the \<^verbatim>\<open>catch\<close> block, line 833. An Error object
  has its message; on another value \<^verbatim>\<open>message\<close> is read like any property, which throws on
  null and undefined, and what is read is converted to a string.
\<close>

definition thrown_message :: "thrown \<Rightarrow> string result" where
  "thrown_message t =
     (case t of
        ErrorObject e \<Rightarrow> Inr (error_message e)
      | ThrownValue v \<Rightarrow> bind_result (js_get v ''message'') to_string)"

text \<open>
  \<^verbatim>\<open>logError\<close>, lines 748-836. The gateway is the \<^verbatim>\<open>createItem\<close> of the client the logger was
  constructed with: a function of the board id, the item name, the column values and the
  flag, which returns a response or throws. The result pairs the calls made to it with what
  \<^verbatim>\<open>logError\<close> returns or throws. Everything thrown inside the \<^verbatim>\<open>try\<close> block, by the gateway
  or by the read of \<^verbatim>\<open>response.data\<close>, reaches the \<^verbatim>\<open>catch\<close> block; what the \<^verbatim>\<open>catch\<close> block
  itself throws leaves \<^verbatim>\<open>logError\<close>.
\<close>

type_synonym gateway_call = "int \<times> string \<times> props \<times> bool"
type_synonym gateway = "gateway_call \<Rightarrow> thrown + jsval"

definition not_saved :: "string \<Rightarrow> string \<Rightarrow> jsval" where
  "not_saved name message =
     JObj [(''monday_id'', JNum 0),
           (''error'', JStr (''***ERROR SAVING TO MONDAY - '' @ name)),
           (''description'', JStr (''Failed to save: '' @ message))]"

definition logError ::
  "gateway \<Rightarrow> platform \<Rightarrow> int \<Rightarrow> jsval \<Rightarrow> jsval \<Rightarrow> gateway_call list \<times> jsval result" where
  "logError gw pf boardId columns errorData =
     (case logError_prepare pf columns errorData of
        Inl e \<Rightarrow> ([], Inl e)
      | Inr p \<Rightarrow>
          (let call = (boardId, errorName p, columnValues p, True);
               attempt =
                 (case gw call of
                    Inl t \<Rightarrow> Inl t
                  | Inr response \<Rightarrow>
                      (case js_get response ''data'' of
                         Inl e \<Rightarrow> Inl (ErrorObject e)
                       | Inr d \<Rightarrow>
                           (let mondayId = js_or (js_get_opt (js_get_opt d ''create_item'') ''id'')
                                                 (JNum 0)
                            in Inr (JObj [(''monday_id'', mondayId),
                                          (''error'',
                                           JStr (if \<not> truthy mondayId
                                                 then ''***NOT SAVED IN MONDAY - '' @ errorName p
                                                 else errorName p)),
                                          (''description'', descriptionText p)]))))
           in ([call],
               case attempt of
                 Inr saved \<Rightarrow> Inr saved
               | Inl error \<Rightarrow>
                   bind_result (thrown_message error) (\<lambda>message.
                     Inr (not_saved (errorName p) message)))))"

text \<open>The gateway of a \<^verbatim>\<open>MondayApiClient\<close> in a given state and network.\<close>

definition client_gateway :: "platform \<Rightarrow> network \<Rightarrow> world \<Rightarrow> gateway" where
  "client_gateway pf net w =
     (\<lambda>(boardId, itemName, cvs, createLabels).
        Inr (snd (createItem pf net w boardId itemName cvs createLabels)))"

section \<open>Notions of the specification\<close>

text \<open>
  The number written by the digits \<open>ip\<close>, a dot and the digits \<open>fp\<close>.
\<close>

definition decimal_value :: "string \<Rightarrow> string \<Rightarrow> rat" where
  "decimal_value ip fp = of_nat (digits_val 0 ip) + of_nat (digits_val 0 fp) / 10 ^ length fp"


text \<open>
  Path resolution with the guard of the code: the value a segment is read on must be
  truthy, and the segment must be non-undefined on it.
\<close>

fun resolve_truthy :: "jsval \<Rightarrow> string list \<Rightarrow> jsval option" where
  "resolve_truthy v [] = Some v"
| "resolve_truthy v (k # ks) =
     (if \<not> truthy v then None
      else (case js_get v k of
              Inl e \<Rightarrow> None
            | Inr x \<Rightarrow> if x = JUndefined then None else resolve_truthy x ks))"


text \<open>The tags of a column: the matches of the pattern in its description, without their braces.\<close>

definition column_tags :: "jsval \<Rightarrow> string list" where
  "column_tags column =
     (case js_or (js_get_opt column ''description'') (JStr []) of
        JStr description \<Rightarrow> map strip_braces (match_tags description)
      | _ \<Rightarrow> [])"

text \<open>
  The pattern in the words of the specification. A match is one or more \<^verbatim>\<open>{\<close>, then one or
  more characters that are no braces, then one or more \<^verbatim>\<open>}\<close>; a string starts with a match
  when one of its prefixes is one.
\<close>

definition is_match :: "string \<Rightarrow> bool" where
  "is_match m =
     (\<exists>a body b. 0 < a \<and> body \<noteq> [] \<and> (\<forall>c\<in>set body. is_body c) \<and> 0 < b \<and>
        m = replicate a (CHR ''{'') @ body @ replicate b (CHR ''}''))"

definition starts_match :: "string \<Rightarrow> bool" where
  "starts_match s = (\<exists>m rest. s = m @ rest \<and> is_match m)"

text \<open>
  All the non-overlapping matches of a string, from left to right: \<open>tag_scan s ms\<close> says that
  \<open>ms\<close> is their list. Either no position of \<open>s\<close> starts a match and there is none; or \<open>s\<close> is
  a gap in which no position starts a match, then the first match, which no longer prefix
  of what is left extends to a match (the quantifiers of the pattern are greedy), then a
  rest whose matches are the remaining ones.
\<close>

inductive tag_scan :: "string \<Rightarrow> string list \<Rightarrow> bool" where
  scan_end: "\<forall>i<length s. \<not> starts_match (drop i s) \<Longrightarrow> tag_scan s []"
| scan_match:
    "\<forall>i<length gap. \<not> starts_match (drop i (gap @ m @ rest)) \<Longrightarrow>
     is_match m \<Longrightarrow>
     \<forall>n. 0 < n \<and> n \<le> length rest \<longrightarrow> \<not> is_match (m @ take n rest) \<Longrightarrow>
     tag_scan rest ms \<Longrightarrow>
     tag_scan (gap @ m @ rest) (m # ms)"

text \<open>The Field Rule that the populate step leaves for a rule, as a function of the rule.\<close>

definition populated_rule :: "jsval \<Rightarrow> props \<Rightarrow> props" where
  "populated_rule externalData rule =
     (case get_own rule ''remote_key'' of
        JStr path \<Rightarrow>
          (if truthy (get_own rule ''in_remote'') \<and> path \<noteq> [] then
             (case resolve_truthy externalData (split_on (CHR ''.'') path) of
                Some v \<Rightarrow> AList.update ''value'' v rule
              | None \<Rightarrow> rule)
           else rule)
      | _ \<Rightarrow> rule)"

section \<open>Worked inputs\<close>

text \<open>
  The inputs of the examples of the specification. None of the examples reaches a
  built-in of the platform or, unless it says so, the network; \<open>example_platform\<close> and
  \<open>no_network\<close> stand in their place.
\<close>

definition example_platform :: platform where
  "example_platform =
     \<lparr> date_toISOString = (\<lambda>v. Inr None), json_parse = (\<lambda>s. None),
       json_stringify = (\<lambda>v. ''{}''), to_number = (\<lambda>v. Inr None) \<rparr>"

definition no_network :: network where
  "no_network = (\<lambda>r. FetchRejected ''fetch failed'' JUndefined)"

text \<open>
  The Field Rule \<^verbatim>\<open>{remote_key: "Customer.Id", in_remote: true, in_monday: true}\<close> and the
  external data \<^verbatim>\<open>{Customer: {Id: "42"}}\<close>.
\<close>

definition example_rule :: props where
  "example_rule =
     [(''remote_key'', JStr ''Customer.Id''), (''in_remote'', JBool True), (''in_monday'', JBool True)]"

definition example_data :: jsval where
  "example_data = JObj [(''Customer'', JObj [(''Id'', JStr ''42'')])]"

text \<open>A state whose heap holds that rule at address 0 and whose cache holds \<open>m\<close> for board 7.\<close>

definition example_world :: "column_map \<Rightarrow> world" where
  "example_world m =
     \<lparr> objects = [example_rule], board_columns = [],
       columnSettingsCache = [(''board_7'', m)], requests = [] \<rparr>"

definition example_column :: column_info where
  "example_column =
     \<lparr> col_id = JStr ''col1'', col_title = JStr ''Client'', col_type = JStr ''text'',
       col_settings_str = JStr ''{}'' \<rparr>"

text \<open>Two columns that declare the same tag, with one and with two braces.\<close>

definition example_col_a :: jsval where
  "example_col_a = JObj [(''id'', JStr ''a''), (''description'', JStr ''first {tag}'')]"

definition example_col_b :: jsval where
  "example_col_b = JObj [(''id'', JStr ''b''), (''description'', JStr ''{{tag}} second'')]"

text \<open>
  A freshly constructed client and mapper: both caches empty, nothing sent. The network
  \<open>board_network\<close> answers every request with a board of one column.
\<close>

definition fresh_world :: world where
  "fresh_world = \<lparr> objects = [], board_columns = [], columnSettingsCache = [], requests = [] \<rparr>"

definition board_network :: network where
  "board_network =
     (\<lambda>r. Body (JObj [(''data'',
              JObj [(''boards'',
                JArr [JObj [(''columns'',
                  JArr [JObj [(''id'', JStr ''col1''), (''title'', JStr ''Client''),
                              (''type'', JStr ''text''),
                              (''description'', JStr ''{client_id}''),
                              (''settings_str'', JStr ''{}'')]])]])])]))"

text \<open>
  The reading of the cache that claim C2 states, for a start state \<open>w\<close>: two consecutive
  gets send one request, and invalidating the board and getting it again sends one more.
\<close>

definition refetch_after_invalidate :: "platform \<Rightarrow> network \<Rightarrow> world \<Rightarrow> int \<Rightarrow> bool" where
  "refetch_after_invalidate pf net w b =
     (let w1 = fst (fetchBoardColumnSettings pf net w b);
          w2 = fst (fetchBoardColumnSettings pf net w1 b);
          w3 = fst (fetchBoardColumnSettings pf net (clearColumnCache w2 (Some b)) b)
      in length (requests w2) = length (requests w) + 1 \<and>
         length (requests w3) = length (requests w2) + 1)"

text \<open>The request that \<^verbatim>\<open>getBoardColumns\<close> sends for a board.\<close>

definition board_request :: "int \<Rightarrow> request" where
  "board_request b = \<lparr> req_query = GetBoardColumns_query,
                        req_variables = [(''boardId'', JStr (int_to_string b))] \<rparr>"




definition example_error :: jsval where
  "example_error =
     JObj [(''projectName'', JStr ''P''), (''clientName'', JStr ''C''),
           (''workflow'', JStr ''W''), (''error'', JStr ''E'')]"

definition failing_gateway :: gateway where
  "failing_gateway = (\<lambda>call. Inl (ErrorObject (Error ''boom'')))"


text \<open>The eight keys that \<^verbatim>\<open>logError\<close> assigns to.\<close>

definition logged_keys :: "string list" where
  "logged_keys =
     [''client'', ''client_warn_email'', ''description'', ''erreur'', ''payload'', ''workflow'',
      ''projet'', ''error_type'']"

text \<open>A computation that throws a TypeError; a computation that throws nothing else.\<close>

definition throws_TypeError :: "'a result \<Rightarrow> bool" where
  "throws_TypeError r = (\<exists>m. r = Inl (TypeError m))"

definition only_TypeError :: "'a result \<Rightarrow> bool" where
  "only_TypeError r = (\<forall>e. r = Inl e \<longrightarrow> (\<exists>m. e = TypeError m))"

section \<open>Properties\<close>

subsection \<open>Number sanitizing\<close>

lemma split_on_not_Nil: "split_on sep s \<noteq> []"
  by (induction s) (auto split: list.splits)

lemma hd_split_on: "hd (split_on sep s) = takeWhile (\<lambda>c. c \<noteq> sep) s"
  by (induction s) (auto split: list.splits simp: split_on_not_Nil)

lemma length_split_on: "length (split_on sep s) = Suc (length (filter (\<lambda>c. c = sep) s))"
  by (induction s) (auto split: list.splits simp: split_on_not_Nil)

lemma concat_tl_split_on:
  "concat (tl (split_on sep s)) = filter (\<lambda>c. c \<noteq> sep) (tl (dropWhile (\<lambda>c. c \<noteq> sep) s))"
proof (induction s)
  case Nil
  then show ?case by simp
next
  case (Cons c s)
  show ?case
  proof (cases "c = sep")
    case True
    have "concat (split_on sep s) = filter (\<lambda>c. c \<noteq> sep) s"
      by (induction s) (auto split: list.splits simp: split_on_not_Nil)
    with True show ?thesis by simp
  next
    case False
    with Cons show ?thesis by (auto split: list.splits simp: split_on_not_Nil)
  qed
qed

lemma dot_not_digit: "\<not> is_digit (CHR ''.'')"
  by (simp add: is_digit_def)

lemma digits_or_dots_takeWhile:
  assumes "\<forall>c\<in>set k. is_digit c \<or> c = CHR ''.''"
  shows "takeWhile (\<lambda>c. c \<noteq> CHR ''.'') k = takeWhile is_digit k"
    and "dropWhile (\<lambda>c. c \<noteq> CHR ''.'') k = dropWhile is_digit k"
    and "filter (\<lambda>c. c \<noteq> CHR ''.'') k = filter is_digit k"
  using assms dot_not_digit by (induction k) auto

lemma dropWhile_digit_dot:
  assumes k: "\<forall>c\<in>set k. is_digit c \<or> c = CHR ''.''" and dot: "CHR ''.'' \<in> set k"
  shows "dropWhile is_digit k = CHR ''.'' # tl (dropWhile is_digit k)"
proof -
  have "dropWhile is_digit k \<noteq> []"
    using dot dot_not_digit by (auto simp: dropWhile_eq_Nil_conv)
  moreover have "hd (dropWhile is_digit k) = CHR ''.''"
    using k calculation hd_dropWhile[of is_digit k] hd_in_set[of "dropWhile is_digit k"]
          set_dropWhileD[of _ is_digit k] by blast
  ultimately show ?thesis
    by (cases "dropWhile is_digit k") auto
qed

lemma collapse_dots:
  assumes k: "\<forall>c\<in>set k. is_digit c \<or> c = CHR ''.''" and dot: "CHR ''.'' \<in> set k"
  shows "(if length (split_on (CHR ''.'') k) > 2
          then hd (split_on (CHR ''.'') k) @ ''.'' @ concat (tl (split_on (CHR ''.'') k))
          else k)
         = takeWhile is_digit k @ ''.'' @ filter is_digit (tl (dropWhile is_digit k))"
proof -
  let ?ip = "takeWhile is_digit k" and ?rest = "tl (dropWhile is_digit k)"
  have dw: "dropWhile is_digit k = CHR ''.'' # ?rest"
    by (rule dropWhile_digit_dot[OF k dot])
  have split: "k = ?ip @ CHR ''.'' # ?rest"
    using takeWhile_dropWhile_id[of is_digit k] dw by simp
  have rest: "\<forall>c\<in>set ?rest. is_digit c \<or> c = CHR ''.''"
    using k split by (metis Un_iff list.set_intros(2) set_append)
  have f: "filter (\<lambda>c. c \<noteq> CHR ''.'') ?rest = filter is_digit ?rest"
    using digits_or_dots_takeWhile(3)[OF rest] .
  show ?thesis
  proof (cases "length (split_on (CHR ''.'') k) > 2")
    case True
    then show ?thesis
      by (simp add: hd_split_on concat_tl_split_on digits_or_dots_takeWhile[OF k] f)
  next
    case False
    have "length (filter (\<lambda>c. c = CHR ''.'') k) \<le> 1"
      using False by (simp add: length_split_on)
    moreover have "filter (\<lambda>c. c = CHR ''.'') k = CHR ''.'' # filter (\<lambda>c. c = CHR ''.'') ?rest"
    proof -
      have "filter (\<lambda>c. c = CHR ''.'') ?ip = []"
        using dot_not_digit by (auto simp: filter_empty_conv dest: set_takeWhileD)
      then show ?thesis by (subst split) simp
    qed
    ultimately have "filter (\<lambda>c. c = CHR ''.'') ?rest = []" by simp
    then have "filter is_digit ?rest = ?rest"
      using rest by (auto simp: filter_empty_conv filter_id_conv)
    with False split show ?thesis by simp
  qed
qed

lemma takeWhile_digits_append_dot:
  assumes "\<forall>c\<in>set ip. is_digit c"
  shows "takeWhile is_digit (ip @ CHR ''.'' # r) = ip"
    and "dropWhile is_digit (ip @ CHR ''.'' # r) = CHR ''.'' # r"
  using assms dot_not_digit by (induction ip) auto

lemma parseFloat_decimal:
  assumes "\<forall>c\<in>set ip. is_digit c" "\<forall>c\<in>set fp. is_digit c"
  shows "parseFloat (ip @ ''.'' @ fp) =
         (if ip = [] \<and> fp = [] then None else Some (decimal_value ip fp))"
proof -
  have tw: "takeWhile is_digit fp = fp" using assms(2) by simp
  show ?thesis
    using takeWhile_digits_append_dot[OF assms(1), of fp]
    by (simp add: parseFloat_def decimal_value_def Let_def tw)
qed

lemma parseInt10_digits:
  assumes "\<forall>c\<in>set k. is_digit c" "k \<noteq> []"
  shows "parseInt10 k = Some (decimal_value k [])"
proof -
  have tw: "takeWhile is_digit k = k" using assms(1) by simp
  show ?thesis using assms(2) by (simp add: parseInt10_def decimal_value_def Let_def tw)
qed

lemma sanitizeNumbers_unfold:
  fixes s
  defines "kept \<equiv> filter (\<lambda>c. is_digit c \<or> c = CHR ''.'') s"
  defines "sv2 \<equiv> (if length (split_on (CHR ''.'') kept) > 2
          then hd (split_on (CHR ''.'') kept) @ ''.'' @ concat (tl (split_on (CHR ''.'') kept))
          else kept)"
  defines "neg \<equiv> startsWith (trim s) ''-''"
  shows "sanitizeNumbers (JStr s) =
      (if kept = [] then Inr JNull
       else (case (if CHR ''.'' \<in> set sv2 then parseFloat sv2 else parseInt10 sv2) of
               None \<Rightarrow> Inr JNull
             | Some n \<Rightarrow> Inr (JNum (if neg then - n else n))))"
proof (cases "s = []")
  case True
  then show ?thesis by (simp add: kept_def sanitizeNumbers_def)
next
  case False
  have "sanitizeNumbers (JStr s) = bind_result (to_string (JStr s)) (\<lambda>strValue.
                let isNegative = startsWith (trim strValue) ''-'';
                    kept = filter (\<lambda>c. is_digit c \<or> c = CHR ''.'') strValue
                in if kept = [] then Inr JNull
                   else
                     (let parts = split_on (CHR ''.'') kept;
                          strValue2 = (if length parts > 2
                                       then hd parts @ ''.'' @ concat (tl parts) else kept);
                          numValue = (if CHR ''.'' \<in> set strValue2 then parseFloat strValue2
                                      else parseInt10 strValue2)
                      in (case numValue of
                            None \<Rightarrow> Inr JNull
                          | Some n \<Rightarrow> Inr (JNum (if isNegative then - n else n)))))"
    using False unfolding sanitizeNumbers_def by simp
  also have "\<dots> = (if kept = [] then Inr JNull
       else (case (if CHR ''.'' \<in> set sv2 then parseFloat sv2 else parseInt10 sv2) of
               None \<Rightarrow> Inr JNull
             | Some n \<Rightarrow> Inr (JNum (if neg then - n else n))))"
    unfolding bind_result_def to_string.simps sum.case Let_def kept_def sv2_def neg_def ..
  finally show ?thesis .
qed

lemma sanitizeNumbers_string:
  "sanitizeNumbers (JStr s) =
     Inr (let kept = filter (\<lambda>c. is_digit c \<or> c = CHR ''.'') s;
              ip = takeWhile is_digit kept;
              fp = filter is_digit (dropWhile is_digit kept)
          in if ip = [] \<and> fp = [] then JNull
             else JNum ((if startsWith (trim s) ''-'' then - 1 else 1) * decimal_value ip fp))"
proof -
  define kept where "kept = filter (\<lambda>c. is_digit c \<or> c = CHR ''.'') s"
  define ip where "ip = takeWhile is_digit kept"
  define fp where "fp = filter is_digit (dropWhile is_digit kept)"
  define sv2 where "sv2 = (if length (split_on (CHR ''.'') kept) > 2
          then hd (split_on (CHR ''.'') kept) @ ''.'' @ concat (tl (split_on (CHR ''.'') kept))
          else kept)"
  define neg where "neg = startsWith (trim s) ''-''"
  have step: "sanitizeNumbers (JStr s) =
      (if kept = [] then Inr JNull
       else (case (if CHR ''.'' \<in> set sv2 then parseFloat sv2 else parseInt10 sv2) of
               None \<Rightarrow> Inr JNull
             | Some n \<Rightarrow> Inr (JNum (if neg then - n else n))))"
    unfolding sv2_def kept_def neg_def by (rule sanitizeNumbers_unfold)
  have k: "\<forall>c\<in>set kept. is_digit c \<or> c = CHR ''.''" by (simp add: kept_def)
  have ipd: "\<forall>c\<in>set ip. is_digit c" unfolding ip_def by (auto dest: set_takeWhileD)
  have fpd: "\<forall>c\<in>set fp. is_digit c" unfolding fp_def by simp
  have goal: "sanitizeNumbers (JStr s) =
     Inr (if ip = [] \<and> fp = [] then JNull
          else JNum ((if neg then - 1 else 1) * decimal_value ip fp))"
  proof (cases "CHR ''.'' \<in> set kept")
    case True
    have fp': "filter is_digit (tl (dropWhile is_digit kept)) = fp"
      unfolding fp_def using dot_not_digit
      by (subst (2) dropWhile_digit_dot[OF k True]) simp
    have ne: "kept \<noteq> []" using True by auto
    have sv: "sv2 = ip @ ''.'' @ fp"
      unfolding sv2_def ip_def using collapse_dots[OF k True] fp' by simp
    have dot: "CHR ''.'' \<in> set sv2" unfolding sv by simp
    show ?thesis
      unfolding step using ne dot parseFloat_decimal[OF ipd fpd] by (simp add: sv)
  next
    case False
    then have all: "\<forall>c\<in>set kept. is_digit c" using k by auto
    then have dw: "dropWhile is_digit kept = []" by simp
    have ipk: "ip = kept" and fpn: "fp = []" unfolding ip_def fp_def using all
      by (simp_all add: dw)
    have "length (split_on (CHR ''.'') kept) = 1"
      using False by (auto simp: length_split_on filter_empty_conv)
    then have sv: "sv2 = kept" unfolding sv2_def by simp
    show ?thesis
    proof (cases "kept = []")
      case True
      then show ?thesis unfolding step using ipk fpn by simp
    next
      case ne: False
      show ?thesis
        unfolding step using ne False parseInt10_digits[OF all ne] by (simp add: sv ipk fpn)
    qed
  qed
  show ?thesis
    using goal unfolding Let_def kept_def[symmetric] ip_def[symmetric] fp_def[symmetric] neg_def .
qed

lemma no_digit_iff:
  "(takeWhile is_digit (filter (\<lambda>c. is_digit c \<or> c = CHR ''.'') s) = [] \<and>
    filter is_digit (dropWhile is_digit (filter (\<lambda>c. is_digit c \<or> c = CHR ''.'') s)) = [])
   = (filter is_digit s = [])"
proof -
  let ?k = "filter (\<lambda>c. is_digit c \<or> c = CHR ''.'') s"
  have a: "filter is_digit (takeWhile is_digit ?k) = takeWhile is_digit ?k"
    by (rule filter_True) (auto dest: set_takeWhileD)
  have "filter is_digit s = filter is_digit ?k" by (induction s) auto
  also have "\<dots> = filter is_digit (takeWhile is_digit ?k) @ filter is_digit (dropWhile is_digit ?k)"
    by (metis filter_append takeWhile_dropWhile_id)
  also have "\<dots> = takeWhile is_digit ?k @ filter is_digit (dropWhile is_digit ?k)"
    by (simp only: a)
  finally show ?thesis by simp
qed

text \<open>
  Claim C5. \<^verbatim>\<open>sanitizeNumbers\<close> maps \<^verbatim>\<open>-$1,234.56\<close> to -1234.56, \<^verbatim>\<open>abc\<close> to null and
  \<^verbatim>\<open>1.2.3\<close> to 1.23. In general, on a string it keeps the digits and the dots, reads the
  digits before the first dot as the integer part and all the digits after it as the
  fraction (the further dots are dropped), negates the number when the trimmed input
  starts with a minus sign, and returns null exactly when the input has no digit.
\<close>

theorem sanitizeNumbers_spec:
  "sanitizeNumbers (JStr ''-$1,234.56'') = Inr (JNum (- 1234.56)) \<and>
   sanitizeNumbers (JStr ''abc'') = Inr JNull \<and>
   sanitizeNumbers (JStr ''1.2.3'') = Inr (JNum 1.23) \<and>
   (\<forall>s. sanitizeNumbers (JStr s) =
      Inr (let kept = filter (\<lambda>c. is_digit c \<or> c = CHR ''.'') s;
               ip = takeWhile is_digit kept;
               fp = filter is_digit (dropWhile is_digit kept)
           in if filter is_digit s = [] then JNull
              else JNum ((if startsWith (trim s) ''-'' then - 1 else 1) * decimal_value ip fp)))"
proof -
  have ex1: "sanitizeNumbers (JStr ''-$1,234.56'') = Inr (JNum (- 1234.56))"
    by (simp add: sanitizeNumbers_string Let_def is_digit_def trim_def is_space_def
          startsWith_def decimal_value_def digit_val_def)
  have ex2: "sanitizeNumbers (JStr ''abc'') = Inr JNull"
    by (simp add: sanitizeNumbers_string Let_def is_digit_def)
  have ex3: "sanitizeNumbers (JStr ''1.2.3'') = Inr (JNum 1.23)"
    by (simp add: sanitizeNumbers_string Let_def is_digit_def trim_def is_space_def
          startsWith_def decimal_value_def digit_val_def)
  have gen: "sanitizeNumbers (JStr s) =
      Inr (let kept = filter (\<lambda>c. is_digit c \<or> c = CHR ''.'') s;
               ip = takeWhile is_digit kept;
               fp = filter is_digit (dropWhile is_digit kept)
           in if filter is_digit s = [] then JNull
              else JNum ((if startsWith (trim s) ''-'' then - 1 else 1) * decimal_value ip fp))"
    for s
    unfolding sanitizeNumbers_string Let_def no_digit_iff ..
  from ex1 ex2 ex3 gen show ?thesis by blast
qed

subsection \<open>Sanitizers that throw\<close>

text \<open>
  Claim C6 says that no sanitizer throws. \<^verbatim>\<open>sanitizeDropdown\<close> guards its argument against
  null but not the elements of an array: on the array holding null, the callback
  \<^verbatim>\<open>v => v.toString().trim()\<close> reads \<^verbatim>\<open>toString\<close> on null and throws. \<^verbatim>\<open>sanitizeText\<close> calls
  \<^verbatim>\<open>value.toString()\<close> on an object whose own property \<^verbatim>\<open>toString\<close> is data, and throws.
  \<^verbatim>\<open>sanitizeBoardRelation\<close> throws on an \<^verbatim>\<open>item_ids\<close> array holding null.
\<close>

theorem sanitizers_throw:
  "sanitizeDropdown (JArr [JNull]) =
     Inl (TypeError ''Cannot read properties of null (reading toString)'') \<and>
   sanitizeText (JObj [(''toString'', JNull)]) = Inl (TypeError ''toString is not a function'') \<and>
   sanitizeBoardRelation (JObj [(''item_ids'', JArr [JNull])]) =
     Inl (TypeError ''Cannot read properties of null (reading toString)'')"
  by (simp add: sanitizeDropdown_def sanitizeText_def sanitizeBoardRelation_def bind_result_def
        trimmed_string_def)

subsection \<open>GraphQL errors and the retry wrapper\<close>

lemma query_attempt_graphql_error:
  assumes "get_own body ''errors'' = JArr (JObj first # others)"
      and "get_own first ''message'' = JStr m"
  shows "query_attempt pf (Body (JObj body)) =
           Inl (GraphQLError (''Monday GraphQL error: '' @ m)
                  (if includes_str (toLowerCase m) ''complexity'' \<or>
                      includes_str (toLowerCase m) ''rate limit''
                   then Some ''COMPLEXITY_ERROR'' else None)
                  (get_own body ''data'')
                  (JArr (JObj first # others))
                  (get_own body ''extensions''))"
  using assms
  by (simp add: query_attempt_def bind_result_def greater_than_zero_def index_of_key_def
        is_digit_def digit_val_def js_get_opt_def get_own_def split: option.splits)

lemma query_never_throws:
  "snd (query pf net w q variables) =
     (case query_attempt pf (net \<lparr> req_query = q, req_variables = variables \<rparr>) of
        Inl e \<Rightarrow> JUndefined
      | Inr result \<Rightarrow> result)"
  by (simp add: query_def withRetry_def Let_def split: sum.splits)

text \<open>
  Claim C7 says that \<^verbatim>\<open>query\<close> fails with the GraphQL error. On the response body
  \<^verbatim>\<open>{data: null, errors: [{message: "Complexity budget exhausted"}]}\<close> the function handed to
  \<^verbatim>\<open>withRetry\<close> does throw that error, with the code \<^verbatim>\<open>COMPLEXITY_ERROR\<close>, the data and the
  error list; \<^verbatim>\<open>withRetry\<close> catches it, and \<^verbatim>\<open>query\<close> returns undefined.
\<close>

theorem query_swallows_graphql_error:
  "query_attempt pf
     (Body (JObj [(''data'', JNull),
                  (''errors'', JArr [JObj [(''message'', JStr ''Complexity budget exhausted'')]])]))
   = Inl (GraphQLError ''Monday GraphQL error: Complexity budget exhausted''
            (Some ''COMPLEXITY_ERROR'') JNull
            (JArr [JObj [(''message'', JStr ''Complexity budget exhausted'')]]) JUndefined) \<and>
   snd (query pf
          (\<lambda>r. Body (JObj [(''data'', JNull),
                             (''errors'',
                              JArr [JObj [(''message'', JStr ''Complexity budget exhausted'')]])]))
          w q variables) = JUndefined"
  by (simp add: query_def withRetry_def Let_def query_attempt_def bind_result_def
        greater_than_zero_def index_of_key_def is_digit_def digit_val_def js_get_opt_def
        toLowerCase_def lower_char_def startsWith_def)

subsection \<open>The payload of processMapping\<close>

lemma getNestedValue_example: "getNestedValue example_data ''Customer.Id'' = JStr ''42''"
  by (simp add: getNestedValue_def example_data_def nested_step_def js_get_opt_def)

lemma populate_example:
  assumes "obj_at h a = example_rule"
  shows "populateConfigValues h [(''client_id'', a)] example_data =
     Inr (h @ [example_rule @ [(''value'', JStr ''42'')]], [(''client_id'', length h)])"
  using assms
  by (simp add: populateConfigValues_def Let_def get_own_def example_rule_def
        getNestedValue_example set_own_def)

lemma sanitize_text_42:
  "sanitizeValueForColumnType pf (JStr ''42'') (JStr ''text'') = Inr (JStr ''42'')"
  by (simp add: sanitizeValueForColumnType_def sanitizeText_def bind_result_def trim_def
        is_space_def)

lemma processMapping_match:
  assumes cache: "map_of (columnSettingsCache w) (cacheKey_of b) = Some m"
      and rule: "obj_at (objects w) a = example_rule"
      and tag: "map_of m ''client_id'' = Some info" "col_id info = JStr ''col1''"
               "col_type info = JStr ''text''"
  shows "snd (processMapping pf net w [(''client_id'', a)] example_data b) =
         Inr [(''col1'', JStr ''42'')]"
  using cache tag
  by (simp add: processMapping_def populate_example[OF rule] fetchBoardColumnSettings_def Let_def
        obj_at_def get_own_def example_rule_def sanitize_text_42 set_own_def)

lemma processMapping_no_match:
  assumes cache: "map_of (columnSettingsCache w) (cacheKey_of b) = Some m"
      and rule: "obj_at (objects w) a = example_rule"
      and tag: "map_of m ''client_id'' = None"
  shows "snd (processMapping pf net w [(''client_id'', a)] example_data b) = Inr []"
  using cache tag
  by (simp add: processMapping_def populate_example[OF rule] fetchBoardColumnSettings_def Let_def
        obj_at_def get_own_def example_rule_def)

lemma build_column_values_drop:
  "build_column_values pf h cm acc es =
   build_column_values pf h cm acc
     (filter (\<lambda>(k, a). truthy (get_own (obj_at h a) ''in_monday'') \<and> map_of cm k \<noteq> None) es)"
  by (induction pf h cm acc es rule: build_column_values.induct)
     (auto simp: Let_def split: option.splits sum.splits)

text \<open>
  Claim C1. Let the Schema Map of the board be \<open>m\<close> and the mapping configuration be
  \<^verbatim>\<open>{client_id: {remote_key: "Customer.Id", in_remote: true, in_monday: true}}\<close>, with the
  external data \<^verbatim>\<open>{Customer: {Id: "42"}}\<close>. If \<open>m\<close> maps the tag \<^verbatim>\<open>client_id\<close> to a column with
  id \<^verbatim>\<open>col1\<close> and type \<^verbatim>\<open>text\<close>, \<^verbatim>\<open>processMapping\<close> returns exactly \<^verbatim>\<open>{col1: "42"}\<close>; if \<open>m\<close> has no
  tag \<^verbatim>\<open>client_id\<close>, it returns \<^verbatim>\<open>{}\<close>. In general the payload loop gives the same result,
  payload or exception, with and without the entries whose \<^verbatim>\<open>in_monday\<close> is falsy or whose
  key is no tag of the Schema Map: such entries are dropped and raise nothing.
\<close>

theorem processMapping_payload:
  assumes "map_of (columnSettingsCache w) (cacheKey_of b) = Some m"
      and "obj_at (objects w) a = example_rule"
  shows "(map_of m ''client_id'' = Some info \<and> col_id info = JStr ''col1'' \<and>
          col_type info = JStr ''text'' \<longrightarrow>
            snd (processMapping pf net w [(''client_id'', a)] example_data b) =
            Inr [(''col1'', JStr ''42'')]) \<and>
         (map_of m ''client_id'' = None \<longrightarrow>
            snd (processMapping pf net w [(''client_id'', a)] example_data b) = Inr []) \<and>
         (\<forall>h cm acc es.
            build_column_values pf h cm acc es =
            build_column_values pf h cm acc
              (filter (\<lambda>(k, a). truthy (get_own (obj_at h a) ''in_monday'') \<and> map_of cm k \<noteq> None)
                 es))"
  using processMapping_match[OF assms] processMapping_no_match[OF assms]
        build_column_values_drop
  by blast

theorem processMapping_payload_witness:
  "snd (processMapping example_platform no_network (example_world [(''client_id'', example_column)])
          [(''client_id'', 0)] example_data 7) = Inr [(''col1'', JStr ''42'')] \<and>
   snd (processMapping example_platform no_network (example_world [])
          [(''client_id'', 0)] example_data 7) = Inr []"
proof -
  have key: "cacheKey_of 7 = ''board_7''"
    by (simp add: cacheKey_of_def int_to_string_def nat_to_string.simps)
  have c1: "map_of (columnSettingsCache (example_world m)) (cacheKey_of 7) = Some m" for m
    by (simp add: key example_world_def)
  have o1: "obj_at (objects (example_world m)) 0 = example_rule" for m
    by (simp add: example_world_def obj_at_def)
  from processMapping_payload[OF c1 o1, of "[(''client_id'', example_column)]" example_column
         example_platform no_network]
       processMapping_payload[OF c1 o1, of "[]" example_column example_platform no_network]
  show ?thesis by (simp add: example_column_def)
qed

subsection \<open>Tag extraction\<close>

lemma tags_example:
  "match_tags ''Client {{{client_id}}} info {email}'' = [''{{{client_id}}}'', ''{email}'']"
  by (simp add: match_tags.simps match_at_def Let_def is_open_def is_close_def is_body_def)

lemma strip_example: "strip_braces ''{{{client_id}}}'' = ''client_id''" "strip_braces ''{email}'' = ''email''"
  by (simp_all add: strip_braces_def is_open_def is_close_def)

lemma build_column_map_example:
  "build_column_map (JArr [JObj [(''id'', i), (''title'', t), (''type'', ty),
       (''description'', JStr ''Client {{{client_id}}} info {email}''), (''settings_str'', st)]])
   = Inr [(''client_id'', \<lparr> col_id = i, col_title = t, col_type = ty, col_settings_str = st \<rparr>),
          (''email'', \<lparr> col_id = i, col_title = t, col_type = ty, col_settings_str = st \<rparr>)]"
  by (simp add: build_column_map_def add_column_def bind_result_def js_or_def tags_example strip_example
       descriptor_of_def js_get_opt_def)

lemma add_column_lookup:
  assumes "add_column m c = Inr m'"
  shows "map_of m' t = (if t \<in> set (column_tags c) then Some (descriptor_of c) else map_of m t)"
proof -
  have fold: "map_of (foldl (\<lambda>m x. AList.update (f x) v m) m0 xs) k =
              (if k \<in> f ` set xs then Some v else map_of m0 k)" for f v m0 k and xs :: "string list"
    by (induction xs arbitrary: m0) (auto simp: update_conv')
  from assms show ?thesis
    by (auto simp: add_column_def column_tags_def bind_result_def js_get_opt_def fold
             split: sum.splits jsval.splits)
qed

lemma add_columns_append:
  "add_columns m (cs @ ds) = (case add_columns m cs of Inl e \<Rightarrow> Inl e | Inr m' \<Rightarrow> add_columns m' ds)"
  by (induction cs arbitrary: m) (auto split: sum.splits)

lemma add_columns_keep:
  assumes "add_columns m cs = Inr m'" "\<forall>c\<in>set cs. t \<notin> set (column_tags c)"
  shows "map_of m' t = map_of m t"
  using assms
proof (induction cs arbitrary: m)
  case Nil
  then show ?case by simp
next
  case (Cons c cs)
  then obtain m1 where a: "add_column m c = Inr m1" and b: "add_columns m1 cs = Inr m'"
    by (auto split: sum.splits)
  from Cons.IH[OF b] Cons.prems(2) have "map_of m' t = map_of m1 t" by simp
  also have "\<dots> = map_of m t" using add_column_lookup[OF a, of t] Cons.prems(2) by simp
  finally show ?case .
qed

lemma later_column_wins:
  assumes "build_column_map (JArr (cs1 @ c # cs2)) = Inr m"
      and "t \<in> set (column_tags c)" and "\<forall>c'\<in>set cs2. t \<notin> set (column_tags c')"
  shows "map_of m t = Some (descriptor_of c)"
proof -
  from assms(1) obtain m1 m2 where "add_columns [] cs1 = Inr m1" and a: "add_column m1 c = Inr m2"
    and b: "add_columns m2 cs2 = Inr m"
    by (auto simp: build_column_map_def add_columns_append split: sum.splits)
  from add_columns_keep[OF b assms(3)] add_column_lookup[OF a, of t] assms(2)
  show ?thesis by simp
qed

lemma match_at_shape:
  assumes "a > 0" "body \<noteq> []" "\<forall>c\<in>set body. is_body c" "b > 0" "rest = [] \<or> hd rest \<noteq> CHR ''}''"
  shows "match_at (replicate a (CHR ''{'') @ body @ replicate b (CHR ''}'') @ rest)
         = Some (replicate a (CHR ''{'') @ body @ replicate b (CHR ''}''), rest)"
proof -
  have nb: "\<not> is_body (CHR ''}'')" "\<not> is_body (CHR ''{'')" "\<not> is_open (CHR ''}'')" "is_close (CHR ''}'')" "is_open (CHR ''{'')"
    by (simp_all add: is_body_def is_open_def is_close_def)
  have hb: "\<not> is_open (hd body)" using assms(2,3) by (cases body) (auto simp: is_body_def is_open_def)
  have o: "takeWhile is_open (replicate a (CHR ''{'') @ body @ replicate b (CHR ''}'') @ rest) = replicate a (CHR ''{'')"
    "dropWhile is_open (replicate a (CHR ''{'') @ body @ replicate b (CHR ''}'') @ rest) = body @ replicate b (CHR ''}'') @ rest"
    using hb assms(2) nb by (cases body; simp add: takeWhile_append dropWhile_append)+
  have bd: "takeWhile is_body (body @ replicate b (CHR ''}'') @ rest) = body"
    "dropWhile is_body (body @ replicate b (CHR ''}'') @ rest) = replicate b (CHR ''}'') @ rest"
    using assms(3,4) nb by (cases b; simp add: takeWhile_append dropWhile_append)+
  have cl: "takeWhile is_close (replicate b (CHR ''}'') @ rest) = replicate b (CHR ''}'')"
    "dropWhile is_close (replicate b (CHR ''}'') @ rest) = rest"
    using assms(5) nb by (cases rest; simp add: takeWhile_append dropWhile_append is_close_def)+
  show ?thesis using assms(1,2,4) by (simp add: match_at_def Let_def o bd cl)
qed

lemma strip_braces_shape:
  assumes "body \<noteq> []" "\<forall>c\<in>set body. is_body c"
  shows "strip_braces (replicate a (CHR ''{'') @ body @ replicate b (CHR ''}'')) = body"
proof -
  have hb: "\<not> is_open (hd body)" and lb: "\<not> is_close (last body)"
    using assms by (auto simp: is_body_def is_open_def is_close_def)
  have "dropWhile is_open (replicate a (CHR ''{'') @ body @ replicate b (CHR ''}'')) =
        body @ replicate b (CHR ''}'')"
    using hb assms(1) by (cases body) (simp_all add: dropWhile_append is_open_def)
  moreover have "dropWhile is_close (replicate b (CHR ''}'') @ rev body) = rev body"
    using lb assms(1) by (cases "rev body") (simp_all add: dropWhile_append is_close_def last_rev hd_rev)
  ultimately show ?thesis by (simp add: strip_braces_def)
qed

lemma match_tags_shape:
  assumes "\<forall>c\<in>set pre. c \<noteq> CHR ''{''"
      and "a > 0" "body \<noteq> []" "\<forall>c\<in>set body. is_body c" "b > 0"
          "rest = [] \<or> hd rest \<noteq> CHR ''}''"
  shows "match_tags (pre @ replicate a (CHR ''{'') @ body @ replicate b (CHR ''}'') @ rest) =
         (replicate a (CHR ''{'') @ body @ replicate b (CHR ''}'')) # match_tags rest"
  using assms(1)
proof (induction pre)
  case Nil
  let ?s = "replicate a (CHR ''{'') @ body @ replicate b (CHR ''}'') @ rest"
  obtain c cs where s: "?s = c # cs" using assms(2) by (cases a) auto
  have "match_tags (c # cs) = (replicate a (CHR ''{'') @ body @ replicate b (CHR ''}'')) # match_tags rest"
    unfolding s[symmetric] match_tags.simps(2)[of c cs, unfolded s[symmetric]]
    by (simp add: match_at_shape[OF assms(2-6)])
  then show ?case by (simp add: s)
next
  case (Cons p pre)
  have "match_at (p # pre @ replicate a (CHR ''{'') @ body @ replicate b (CHR ''}'') @ rest) = None"
    using Cons.prems by (simp add: match_at_def is_open_def)
  then show ?case using Cons by (simp add: match_tags.simps)
qed

lemma run_open: "takeWhile is_open s = replicate (length (takeWhile is_open s)) (CHR ''{'')"
  by (induction s) (simp_all add: is_open_def)

lemma run_close: "takeWhile is_close s = replicate (length (takeWhile is_close s)) (CHR ''}'')"
  by (induction s) (simp_all add: is_close_def)

lemma hd_after_close: "dropWhile is_close s = [] \<or> hd (dropWhile is_close s) \<noteq> CHR ''}''"
  using hd_dropWhile[of is_close s] by (auto simp: is_close_def)

lemma match_at_sound:
  assumes "match_at s = Some (m, r)"
  shows "s = m @ r" and "is_match m" and "r = [] \<or> hd r \<noteq> CHR ''}''"
proof -
  let ?opens = "takeWhile is_open s" and ?r1 = "dropWhile is_open s"
  let ?body = "takeWhile is_body ?r1" and ?r2 = "dropWhile is_body ?r1"
  let ?closes = "takeWhile is_close ?r2" and ?r3 = "dropWhile is_close ?r2"
  from assms have ne: "?opens \<noteq> []" "?body \<noteq> []" "?closes \<noteq> []"
    and m: "m = ?opens @ ?body @ ?closes" and r: "r = ?r3"
    by (auto simp: match_at_def Let_def split: if_splits)
  have "s = ?opens @ ?r1" by simp
  also have "?r1 = ?body @ ?r2" by simp
  also have "?r2 = ?closes @ ?r3" by simp
  finally show "s = m @ r" by (simp add: m r)
  have b: "\<forall>c\<in>set ?body. is_body c" by (auto dest: set_takeWhileD)
  show "is_match m"
    unfolding is_match_def
    apply (rule exI[of _ "length ?opens"], rule exI[of _ ?body], rule exI[of _ "length ?closes"])
    using ne b run_open[of s] run_close[of ?r2] by (simp add: m)
  show "r = [] \<or> hd r \<noteq> CHR ''}''" unfolding r by (rule hd_after_close)
qed

lemma shape_drop:
  assumes "body \<noteq> []" "\<forall>c\<in>set body. is_body c" "0 < b"
  shows "dropWhile is_body (dropWhile is_open (replicate a (CHR ''{'') @ body @ replicate b (CHR ''}'') @ z))
         = replicate b (CHR ''}'') @ z"
proof -
  have hb: "\<not> is_open (hd body)" using assms(1,2) by (cases body) (auto simp: is_body_def is_open_def)
  have 1: "dropWhile is_open (replicate a (CHR ''{'') @ body @ replicate b (CHR ''}'') @ z) =
           body @ replicate b (CHR ''}'') @ z"
    using hb assms(1) by (cases body) (simp_all add: dropWhile_append is_open_def)
  have 2: "dropWhile is_body (body @ replicate b (CHR ''}'') @ z) = replicate b (CHR ''}'') @ z"
    using assms(2,3) by (cases b) (simp_all add: dropWhile_append is_body_def)
  show ?thesis by (simp add: 1 2)
qed

lemma match_longest:
  assumes "is_match m" "r = [] \<or> hd r \<noteq> CHR ''}''" "0 < n" "n \<le> length r"
  shows "\<not> is_match (m @ take n r)"
proof
  assume "is_match (m @ take n r)"
  then obtain a' body' b' where s': "body' \<noteq> []" "\<forall>c\<in>set body'. is_body c" "0 < b'"
    and e': "m @ take n r = replicate a' (CHR ''{'') @ body' @ replicate b' (CHR ''}'')"
    by (auto simp: is_match_def)
  from assms(1) obtain a body b where s: "body \<noteq> []" "\<forall>c\<in>set body. is_body c" "0 < b"
    and e: "m = replicate a (CHR ''{'') @ body @ replicate b (CHR ''}'')"
    by (auto simp: is_match_def)
  from assms(2,3,4) obtain x xs where t: "take n r = x # xs" and x: "x \<noteq> CHR ''}''"
    by (cases r; cases n) auto
  have "dropWhile is_body (dropWhile is_open (m @ take n r)) = replicate b (CHR ''}'') @ x # xs"
    using shape_drop[OF s, of a "x # xs"] by (simp add: e t)
  moreover have "dropWhile is_body (dropWhile is_open (m @ take n r)) = replicate b' (CHR ''}'')"
    using shape_drop[OF s', of a' "[]"] by (simp add: e')
  ultimately have "replicate b (CHR ''}'') @ x # xs = replicate b' (CHR ''}'')" by simp
  then have "x \<in> set (replicate b' (CHR ''}''))" by (metis in_set_conv_decomp)
  with x show False by simp
qed

lemma match_at_complete:
  assumes "is_match m"
  shows "match_at (m @ r) = Some (m @ takeWhile is_close r, dropWhile is_close r)"
proof -
  from assms obtain a body b where s: "0 < a" "body \<noteq> []" "\<forall>c\<in>set body. is_body c" "0 < b"
    and e: "m = replicate a (CHR ''{'') @ body @ replicate b (CHR ''}'')"
    by (auto simp: is_match_def)
  let ?k = "length (takeWhile is_close r)"
  have r: "r = replicate ?k (CHR ''}'') @ dropWhile is_close r"
    using run_close[of r] takeWhile_dropWhile_id[of is_close r] by simp
  have "m @ r = replicate a (CHR ''{'') @ body @ replicate (b + ?k) (CHR ''}'') @ dropWhile is_close r"
    using r by (simp add: e replicate_add)
  moreover have "match_at (replicate a (CHR ''{'') @ body @ replicate (b + ?k) (CHR ''}'') @ dropWhile is_close r)
      = Some (replicate a (CHR ''{'') @ body @ replicate (b + ?k) (CHR ''}''), dropWhile is_close r)"
    by (rule match_at_shape) (use s hd_after_close in auto)
  ultimately show ?thesis using run_close[of r] by (simp add: e replicate_add)
qed

lemma match_at_None: "(match_at s = None) = (\<not> starts_match s)"
proof
  assume n: "match_at s = None"
  show "\<not> starts_match s"
  proof
    assume "starts_match s"
    then obtain m rest where "s = m @ rest" "is_match m" by (auto simp: starts_match_def)
    with match_at_complete[of m rest] n show False by simp
  qed
next
  assume n: "\<not> starts_match s"
  show "match_at s = None"
  proof (cases "match_at s")
    case (Some p)
    obtain m r where "p = (m, r)" by (cases p)
    with Some match_at_sound(1,2)[of s m r] n show ?thesis by (auto simp: starts_match_def)
  qed simp
qed

lemma match_at_exact:
  assumes "is_match m" "\<forall>n. 0 < n \<and> n \<le> length r \<longrightarrow> \<not> is_match (m @ take n r)"
  shows "match_at (m @ r) = Some (m, r)"
proof -
  have "takeWhile is_close r = []"
  proof (rule ccontr)
    assume ne: "takeWhile is_close r \<noteq> []"
    let ?k = "length (takeWhile is_close r)"
    have k: "0 < ?k" "?k \<le> length r" using ne by (simp_all add: length_takeWhile_le)
    have "take ?k r = takeWhile is_close r"
      by (metis append_eq_conv_conj takeWhile_dropWhile_id)
    moreover have "is_match (m @ takeWhile is_close r)"
      by (rule match_at_sound(2)[OF match_at_complete[OF assms(1), of r]])
    ultimately show False using assms(2) k by auto
  qed
  then have "dropWhile is_close r = r" by (metis append_Nil takeWhile_dropWhile_id)
  with match_at_complete[OF assms(1), of r] \<open>takeWhile is_close r = []\<close> show ?thesis by simp
qed

lemma match_tags_gap:
  assumes "\<forall>i<length gap. \<not> starts_match (drop i (gap @ q))"
  shows "match_tags (gap @ q) = match_tags q"
  using assms
proof (induction gap)
  case Nil
  then show ?case by simp
next
  case (Cons c gap)
  from Cons.prems[rule_format, of 0] have "match_at (c # gap @ q) = None"
    by (simp add: match_at_None)
  then have "match_tags ((c # gap) @ q) = match_tags (gap @ q)"
    by (simp add: match_tags.simps)
  moreover have "\<forall>i<length gap. \<not> starts_match (drop i (gap @ q))"
    using Cons.prems by (metis Suc_less_eq append_Cons drop_Suc_Cons length_Cons)
  ultimately show ?case using Cons.IH by simp
qed

lemma is_match_not_Nil: "is_match m \<Longrightarrow> m \<noteq> []"
  by (auto simp: is_match_def)

lemma match_tags_match:
  assumes "is_match m" "\<forall>n. 0 < n \<and> n \<le> length r \<longrightarrow> \<not> is_match (m @ take n r)"
  shows "match_tags (m @ r) = m # match_tags r"
proof -
  from is_match_not_Nil[OF assms(1)] obtain c cs where s: "m @ r = c # cs" by (cases m) auto
  show ?thesis
    unfolding s match_tags.simps(2)[of c cs]
    using match_at_exact[OF assms] by (simp add: s)
qed

lemma tag_scan_unique: "tag_scan s ms \<Longrightarrow> match_tags s = ms"
proof (induction rule: tag_scan.induct)
  case (scan_end s)
  then show ?case using match_tags_gap[of s "[]"] by (simp add: match_tags.simps)
next
  case (scan_match gap m rest ms)
  from match_tags_gap[OF scan_match.hyps(1)] match_tags_match[OF scan_match.hyps(2,3)]
       scan_match.IH
  show ?case by simp
qed

lemma tag_scan_skip:
  assumes "\<not> starts_match (c # cs)" "tag_scan cs ms"
  shows "tag_scan (c # cs) ms"
  using assms(2)
proof (cases rule: tag_scan.cases)
  case scan_end
  have "\<forall>i<length (c # cs). \<not> starts_match (drop i (c # cs))"
  proof (intro allI impI)
    fix i assume "i < length (c # cs)"
    then show "\<not> starts_match (drop i (c # cs))"
      using assms(1) scan_end(2) by (cases i) auto
  qed
  then show ?thesis unfolding scan_end(1) by (rule tag_scan.scan_end)
next
  case (scan_match gap m rest ms')
  have "\<forall>i<length (c # gap). \<not> starts_match (drop i ((c # gap) @ m @ rest))"
  proof (intro allI impI)
    fix i assume "i < length (c # gap)"
    then show "\<not> starts_match (drop i ((c # gap) @ m @ rest))"
      using assms(1) scan_match(1,3) by (cases i) auto
  qed
  from tag_scan.scan_match[OF this scan_match(4,5,6)]
  show ?thesis by (simp add: scan_match(1,2))
qed

lemma tag_scan_match_tags: "tag_scan s (match_tags s)"
proof (induction s rule: match_tags.induct)
  case 1
  show ?case by (simp add: match_tags.simps tag_scan.scan_end)
next
  case (2 c cs)
  show ?case
  proof (cases "match_at (c # cs)")
    case None
    then have "\<not> starts_match (c # cs)" by (simp add: match_at_None)
    from tag_scan_skip[OF this "2.IH"(1)[OF None]] None
    show ?thesis by (simp add: match_tags.simps)
  next
    case (Some p)
    obtain m rest where p: "p = (m, rest)" by (cases p)
    note a = Some[unfolded p]
    note snd = match_at_sound[OF a]
    have longest: "\<forall>n. 0 < n \<and> n \<le> length rest \<longrightarrow> \<not> is_match (m @ take n rest)"
      using match_longest[OF snd(2,3)] by blast
    have "tag_scan ([] @ m @ rest) (m # match_tags rest)"
      by (rule tag_scan.scan_match[OF _ snd(2) longest "2.IH"(2)[OF Some p[symmetric]]]) simp
    moreover have "match_tags (c # cs) = m # match_tags rest"
      by (simp add: match_tags.simps a)
    ultimately show ?thesis by (simp add: snd(1))
  qed
qed

lemma tag_scan_iff: "tag_scan s ms \<longleftrightarrow> match_tags s = ms"
  using tag_scan_unique tag_scan_match_tags by blast

lemma build_column_map_described:
  assumes "js_get column ''description'' = Inr (JStr ''Client {{{client_id}}} info {email}'')"
  shows "build_column_map (JArr [column]) =
         Inr [(''client_id'', descriptor_of column), (''email'', descriptor_of column)]"
  using assms
  by (simp add: build_column_map_def add_column_def bind_result_def js_or_def tags_example
        strip_example)

lemma column_tags_scan:
  assumes "js_or (js_get_opt column ''description'') (JStr []) = JStr d" and "tag_scan d ms"
  shows "column_tags column = map strip_braces ms"
  using assms tag_scan_unique[OF assms(2)] by (simp add: column_tags_def)

lemma undeclared_tag:
  assumes "build_column_map (JArr cs) = Inr m" and "\<forall>c\<in>set cs. t \<notin> set (column_tags c)"
  shows "map_of m t = None"
  using add_columns_keep[OF _ assms(2), of "[]" m] assms(1) by (simp add: build_column_map_def)

lemma nested_tags: "match_tags ''{p{q}r}'' = [''{q}'']"
  by (simp add: match_tags.simps match_at_def Let_def is_open_def is_close_def is_body_def)

text \<open>
  Claim C3. A column whose description is \<^verbatim>\<open>Client {{{client_id}}} info {email}\<close> gives a
  Schema Map with exactly the two tags \<^verbatim>\<open>client_id\<close> and \<^verbatim>\<open>email\<close>, both mapped to the
  descriptor of that column, whatever else the column holds. In general the matches that the code finds in a description
  are all its non-overlapping matches from left to right, and no other list is: each is one
  or more \<^verbatim>\<open>{\<close>, a non-empty run of characters that are no braces and one or more \<^verbatim>\<open>}\<close>, it
  starts at the first position behind the previous match where a match starts, and it takes
  the whole run of closing braces. The tag of a match is the run between its braces. The
  tags of a column are the tags of the matches of its description; a tag that a column
  declares is mapped to the descriptor of the last column that declares it, and a tag
  that no column declares is not in the Schema Map.
\<close>

theorem schema_map_tags:
  "(\<forall>i t ty st.
      build_column_map
        (JArr [JObj [(''id'', i), (''title'', t), (''type'', ty),
                     (''description'', JStr ''Client {{{client_id}}} info {email}''),
                     (''settings_str'', st)]]) =
      Inr [(''client_id'', \<lparr> col_id = i, col_title = t, col_type = ty, col_settings_str = st \<rparr>),
           (''email'', \<lparr> col_id = i, col_title = t, col_type = ty, col_settings_str = st \<rparr>)]) \<and>
   (\<forall>column.
      js_get column ''description'' = Inr (JStr ''Client {{{client_id}}} info {email}'') \<longrightarrow>
        build_column_map (JArr [column]) =
        Inr [(''client_id'', descriptor_of column), (''email'', descriptor_of column)]) \<and>
   (\<forall>s ms. tag_scan s ms \<longleftrightarrow> match_tags s = ms) \<and>
   (\<forall>pre a body b rest.
      (\<forall>c\<in>set pre. c \<noteq> CHR ''{'') \<and> a > 0 \<and> body \<noteq> [] \<and> (\<forall>c\<in>set body. is_body c) \<and> b > 0 \<and>
      (rest = [] \<or> hd rest \<noteq> CHR ''}'') \<longrightarrow>
        match_tags (pre @ replicate a (CHR ''{'') @ body @ replicate b (CHR ''}'') @ rest) =
          (replicate a (CHR ''{'') @ body @ replicate b (CHR ''}'')) # match_tags rest) \<and>
   (\<forall>a body b.
      body \<noteq> [] \<and> (\<forall>c\<in>set body. is_body c) \<longrightarrow>
        strip_braces (replicate a (CHR ''{'') @ body @ replicate b (CHR ''}'')) = body) \<and>
   (\<forall>column d ms.
      js_or (js_get_opt column ''description'') (JStr []) = JStr d \<and> tag_scan d ms \<longrightarrow>
        column_tags column = map strip_braces ms) \<and>
   (\<forall>cs1 c cs2 m t.
      build_column_map (JArr (cs1 @ c # cs2)) = Inr m \<and> t \<in> set (column_tags c) \<and>
      (\<forall>c'\<in>set cs2. t \<notin> set (column_tags c')) \<longrightarrow>
        map_of m t = Some (descriptor_of c)) \<and>
   (\<forall>cs m t.
      build_column_map (JArr cs) = Inr m \<and> (\<forall>c\<in>set cs. t \<notin> set (column_tags c)) \<longrightarrow>
        map_of m t = None)"
proof (intro conjI allI impI)
  fix s ms show "tag_scan s ms \<longleftrightarrow> match_tags s = ms" by (rule tag_scan_iff)
next
  fix column
  assume "js_get column ''description'' = Inr (JStr ''Client {{{client_id}}} info {email}'')"
  then show "build_column_map (JArr [column]) =
        Inr [(''client_id'', descriptor_of column), (''email'', descriptor_of column)]"
    by (rule build_column_map_described)
next
  fix a b :: nat and pre body rest
  assume h: "(\<forall>c\<in>set pre. c \<noteq> CHR ''{'') \<and> a > 0 \<and> body \<noteq> [] \<and> (\<forall>c\<in>set body. is_body c) \<and> b > 0 \<and>
          (rest = [] \<or> hd rest \<noteq> CHR ''}'')"
  show "match_tags (pre @ replicate a (CHR ''{'') @ body @ replicate b (CHR ''}'') @ rest) =
          (replicate a (CHR ''{'') @ body @ replicate b (CHR ''}'')) # match_tags rest"
    by (rule match_tags_shape) (use h in simp_all)
next
  fix a b :: nat and body
  assume h: "body \<noteq> [] \<and> (\<forall>c\<in>set body. is_body c)"
  show "strip_braces (replicate a (CHR ''{'') @ body @ replicate b (CHR ''}'')) = body"
    by (rule strip_braces_shape) (use h in simp_all)
next
  fix column d ms
  assume h: "js_or (js_get_opt column ''description'') (JStr []) = JStr d \<and> tag_scan d ms"
  show "column_tags column = map strip_braces ms"
    by (rule column_tags_scan[OF h[THEN conjunct1] h[THEN conjunct2]])
next
  fix cs1 c cs2 m t
  assume h: "build_column_map (JArr (cs1 @ c # cs2)) = Inr m \<and> t \<in> set (column_tags c) \<and>
          (\<forall>c'\<in>set cs2. t \<notin> set (column_tags c'))"
  show "map_of m t = Some (descriptor_of c)"
    by (rule later_column_wins[OF h[THEN conjunct1] h[THEN conjunct2, THEN conjunct1]
              h[THEN conjunct2, THEN conjunct2]])
next
  fix cs m t
  assume h: "build_column_map (JArr cs) = Inr m \<and> (\<forall>c\<in>set cs. t \<notin> set (column_tags c))"
  show "map_of m t = None"
    by (rule undeclared_tag[OF h[THEN conjunct1] h[THEN conjunct2]])
qed (rule build_column_map_example)

theorem schema_map_tags_witness:
  "tag_scan ''{p{q}r}'' [''{q}''] \<and>
   strip_braces (replicate 3 (CHR ''{'') @ ''client_id'' @ replicate 3 (CHR ''}'')) = ''client_id'' \<and>
   build_column_map (JArr ([example_col_a] @ example_col_b # [])) =
     Inr [(''tag'', descriptor_of example_col_b)] \<and>
   map_of [(''tag'', descriptor_of example_col_b)] ''tag'' = Some (descriptor_of example_col_b) \<and>
   map_of [(''tag'', descriptor_of example_col_b)] ''other'' = None"
proof -
  have b: "build_column_map (JArr ([example_col_a] @ example_col_b # [])) =
           Inr [(''tag'', descriptor_of example_col_b)]"
    by (simp add: build_column_map_def add_column_def bind_result_def js_or_def
          example_col_a_def example_col_b_def match_tags.simps match_at_def Let_def
          is_open_def is_close_def is_body_def strip_braces_def)
  have t: "''tag'' \<in> set (column_tags example_col_b)"
    by (simp add: column_tags_def js_get_opt_def js_or_def example_col_b_def match_tags.simps
          match_at_def Let_def is_open_def is_close_def is_body_def strip_braces_def)
  have h: "''client_id'' \<noteq> [] \<and> (\<forall>c\<in>set ''client_id''. is_body c)"
    by (simp add: is_body_def)
  have n: "\<forall>c'\<in>set ([]::jsval list). ''tag'' \<notin> set (column_tags c')" by simp
  note scan = schema_map_tags[THEN conjunct2, THEN conjunct2, THEN conjunct1, rule_format,
                of "''{p{q}r}''" "[''{q}'']"]
  note strip = schema_map_tags[THEN conjunct2, THEN conjunct2, THEN conjunct2, THEN conjunct2,
                 THEN conjunct1, rule_format, OF h, of 3 3]
  note wins = schema_map_tags[THEN conjunct2, THEN conjunct2, THEN conjunct2, THEN conjunct2,
                THEN conjunct2, THEN conjunct2, THEN conjunct1, rule_format,
                OF conjI[OF b conjI[OF t n]]]
  from scan nested_tags have "tag_scan ''{p{q}r}'' [''{q}'']" by simp
  with strip wins b show ?thesis by simp
qed

subsection \<open>The schema cache\<close>

lemma nat_to_string_digits: "set (nat_to_string n) \<subseteq> set ''0123456789''"
proof (induction n rule: nat_to_string.induct)
  case (1 n)
  have d: "''0123456789'' ! k \<in> set ''0123456789''" if "k < 10" for k
    using that nth_mem[of k "''0123456789''"] by simp
  show ?case
  proof (cases "n < 10")
    case True
    then show ?thesis using d[of n] by (subst nat_to_string.simps) simp
  next
    case False
    have "n mod 10 < 10" by simp
    with False 1 d[of "n mod 10"] show ?thesis by (subst nat_to_string.simps) simp
  qed
qed

lemma int_to_string_not_proto: "int_to_string b \<noteq> ''__proto__''"
proof
  assume a: "int_to_string b = ''__proto__''"
  have n: "CHR ''_'' \<notin> set (nat_to_string n)" for n
    using nat_to_string_digits[of n] by auto
  have "CHR ''_'' \<notin> set (int_to_string b)"
    by (simp add: int_to_string_def n)
  moreover have "CHR ''_'' \<in> set (int_to_string b)"
    unfolding a by simp
  ultimately show False by blast
qed

lemma getBoardColumns_miss:
  assumes "map_of (board_columns w) (int_to_string b) = None"
  shows "getBoardColumns pf net w b =
     (case js_get (withRetry (query_attempt pf (net (board_request b)))) ''data'' of
        Inl e \<Rightarrow> (w\<lparr> requests := requests w @ [board_request b] \<rparr>, Inl e)
      | Inr d \<Rightarrow>
          (w\<lparr> requests := requests w @ [board_request b],
               board_columns :=
                 set_own (int_to_string b)
                   (js_or (js_get_opt (js_get_opt (js_get_opt d ''boards'') ''0'') ''columns'') (JArr []))
                   (board_columns w) \<rparr>,
           Inr (js_or (js_get_opt (js_get_opt (js_get_opt d ''boards'') ''0'') ''columns'') (JArr []))))"
  using assms
  by (simp add: getBoardColumns_def query_def Let_def board_request_def split: sum.splits)

lemma getBoardColumns_hit:
  assumes "map_of (board_columns w) (int_to_string b) = Some cols"
  shows "getBoardColumns pf net w b = (w, Inr cols)"
  using assms by (simp add: getBoardColumns_def Let_def)

lemma fetch_miss:
  assumes "map_of (columnSettingsCache w) (cacheKey_of b) = None"
      and "getBoardColumns pf net w b = (w1, Inr cols)"
      and "build_column_map cols = Inr m"
  shows "fetchBoardColumnSettings pf net w b =
         (w1\<lparr> columnSettingsCache := AList.update (cacheKey_of b) m (columnSettingsCache w1) \<rparr>, Inr m)"
  using assms by (simp add: fetchBoardColumnSettings_def Let_def)

lemma fetch_hit:
  assumes "map_of (columnSettingsCache w) (cacheKey_of b) = Some m"
  shows "fetchBoardColumnSettings pf net w b = (w, Inr m)"
  using assms by (simp add: fetchBoardColumnSettings_def Let_def)

lemma first_get:
  assumes nb: "map_of (board_columns w) (int_to_string b) = None"
      and nc: "map_of (columnSettingsCache w) (cacheKey_of b) = None"
      and first: "fetchBoardColumnSettings pf net w b = (w1, Inr m)"
  shows "\<exists>cols. build_column_map cols = Inr m \<and>
           w1 = w\<lparr> requests := requests w @ [board_request b],
                    board_columns := set_own (int_to_string b) cols (board_columns w),
                    columnSettingsCache := AList.update (cacheKey_of b) m (columnSettingsCache w) \<rparr>"
proof -
  obtain wa r where g: "getBoardColumns pf net w b = (wa, r)" by (cases "getBoardColumns pf net w b")
  from first nc g obtain cols where r: "r = Inr cols" and bm: "build_column_map cols = Inr m"
    and w1: "w1 = wa\<lparr> columnSettingsCache := AList.update (cacheKey_of b) m (columnSettingsCache wa) \<rparr>"
    by (auto simp: fetchBoardColumnSettings_def Let_def split: sum.splits)
  from g r have "wa = w\<lparr> requests := requests w @ [board_request b],
                    board_columns := set_own (int_to_string b) cols (board_columns w) \<rparr>"
    unfolding getBoardColumns_miss[OF nb] by (auto split: sum.splits)
  with w1 bm show ?thesis by auto
qed

lemma cleared_cache:
  "map_of (columnSettingsCache (clearColumnCache w (Some b))) (cacheKey_of b) = None"
  "map_of (columnSettingsCache (clearColumnCache w None)) (cacheKey_of b) = None"
  "board_columns (clearColumnCache w arg) = board_columns w"
  "requests (clearColumnCache w arg) = requests w"
  by (simp_all add: clearColumnCache_def delete_conv' split: option.splits)

lemma get_after_invalidate:
  assumes bc: "map_of (board_columns w) (int_to_string b) = Some cols"
      and bm: "build_column_map cols = Inr m"
      and nc: "map_of (columnSettingsCache w) (cacheKey_of b) = None"
  shows "fetchBoardColumnSettings pf net w b =
         (w\<lparr> columnSettingsCache := AList.update (cacheKey_of b) m (columnSettingsCache w) \<rparr>, Inr m)"
  by (rule fetch_miss[OF nc getBoardColumns_hit[OF bc] bm])

lemma three_gets:
  assumes nb: "map_of (board_columns w) (int_to_string b) = None"
      and nc: "map_of (columnSettingsCache w) (cacheKey_of b) = None"
      and first: "fetchBoardColumnSettings pf net1 w b = (w1, Inr m)"
  shows "requests w1 = requests w @ [board_request b]"
    and "fetchBoardColumnSettings pf net2 w1 b = (w1, Inr m)"
    and "requests (fst (fetchBoardColumnSettings pf net3 (clearColumnCache w1 (Some b)) b)) = requests w1"
    and "snd (fetchBoardColumnSettings pf net3 (clearColumnCache w1 (Some b)) b) = Inr m"
    and "requests (fst (fetchBoardColumnSettings pf net3 (clearColumnCache w1 None) b)) = requests w1"
    and "snd (fetchBoardColumnSettings pf net3 (clearColumnCache w1 None) b) = Inr m"
proof -
  from first_get[OF nb nc first] obtain cols where bm: "build_column_map cols = Inr m"
    and w1: "w1 = w\<lparr> requests := requests w @ [board_request b],
                    board_columns := set_own (int_to_string b) cols (board_columns w),
                    columnSettingsCache := AList.update (cacheKey_of b) m (columnSettingsCache w) \<rparr>"
    by blast
  show "requests w1 = requests w @ [board_request b]" by (simp add: w1)
  have hit: "map_of (columnSettingsCache w1) (cacheKey_of b) = Some m"
    by (simp add: w1 update_conv')
  show "fetchBoardColumnSettings pf net2 w1 b = (w1, Inr m)" by (rule fetch_hit[OF hit])
  have bc: "map_of (board_columns (clearColumnCache w1 arg)) (int_to_string b) = Some cols" for arg
    by (simp add: cleared_cache w1 set_own_def int_to_string_not_proto update_conv')
  show "requests (fst (fetchBoardColumnSettings pf net3 (clearColumnCache w1 (Some b)) b)) = requests w1"
       "snd (fetchBoardColumnSettings pf net3 (clearColumnCache w1 (Some b)) b) = Inr m"
    by (simp_all add: get_after_invalidate[OF bc bm cleared_cache(1)] cleared_cache)
  show "requests (fst (fetchBoardColumnSettings pf net3 (clearColumnCache w1 None) b)) = requests w1"
       "snd (fetchBoardColumnSettings pf net3 (clearColumnCache w1 None) b) = Inr m"
    by (simp_all add: get_after_invalidate[OF bc bm cleared_cache(2)] cleared_cache)
qed

lemma board_network_first_get:
  "\<exists>w1 m. fetchBoardColumnSettings example_platform board_network fresh_world 7 = (w1, Inr m)"
proof -
  have k: "int_to_string 7 = ''7''" by (simp add: int_to_string_def nat_to_string.simps)
  have g: "getBoardColumns example_platform board_network fresh_world 7 =
        (fresh_world\<lparr> requests := [board_request 7],
               board_columns := [(''7'', JArr [JObj [(''id'', JStr ''col1''), (''title'', JStr ''Client''),
                              (''type'', JStr ''text''),
                              (''description'', JStr ''{client_id}''),
                              (''settings_str'', JStr ''{}'')]])] \<rparr>,
         Inr (JArr [JObj [(''id'', JStr ''col1''), (''title'', JStr ''Client''),
                              (''type'', JStr ''text''),
                              (''description'', JStr ''{client_id}''),
                              (''settings_str'', JStr ''{}'')]]))"
    by (subst getBoardColumns_miss)
       (simp_all add: fresh_world_def board_network_def query_attempt_def bind_result_def
          withRetry_def js_get_opt_def index_of_key_def is_digit_def digit_val_def js_or_def
          set_own_def k)
  have bm: "build_column_map (JArr [JObj [(''id'', JStr ''col1''), (''title'', JStr ''Client''),
                              (''type'', JStr ''text''),
                              (''description'', JStr ''{client_id}''),
                              (''settings_str'', JStr ''{}'')]]) =
            Inr [(''client_id'', example_column)]"
    by (simp add: build_column_map_def add_column_def bind_result_def js_or_def
          match_tags.simps match_at_def Let_def is_open_def is_close_def is_body_def
          strip_braces_def descriptor_of_def js_get_opt_def example_column_def)
  have nc: "map_of (columnSettingsCache fresh_world) (cacheKey_of 7) = None"
    by (simp add: fresh_world_def)
  show ?thesis using fetch_miss[OF nc g bm] by blast
qed

lemma invalidated_get:
  assumes nb: "map_of (board_columns w) (int_to_string b) = None"
      and nc: "map_of (columnSettingsCache w) (cacheKey_of b) = None"
      and first: "fetchBoardColumnSettings pf net1 w b = (w1, Inr m)"
  shows "map_of (columnSettingsCache w1) (cacheKey_of b) = Some m \<and>
         (\<exists>cols. map_of (board_columns w1) (int_to_string b) = Some cols \<and>
                  build_column_map cols = Inr m \<and>
            (\<forall>wc\<in>{clearColumnCache w1 (Some b), clearColumnCache w1 None}.
               map_of (columnSettingsCache wc) (cacheKey_of b) = None \<and>
               getBoardColumns pf net3 wc b = (wc, Inr cols) \<and>
               fetchBoardColumnSettings pf net3 wc b =
                 (wc\<lparr> columnSettingsCache :=
                        AList.update (cacheKey_of b) m (columnSettingsCache wc) \<rparr>, Inr m) \<and>
               requests wc = requests w1))"
proof -
  from first_get[OF nb nc first] obtain cols where bm: "build_column_map cols = Inr m"
    and w1: "w1 = w\<lparr> requests := requests w @ [board_request b],
                    board_columns := set_own (int_to_string b) cols (board_columns w),
                    columnSettingsCache := AList.update (cacheKey_of b) m (columnSettingsCache w) \<rparr>"
    by blast
  have hit: "map_of (columnSettingsCache w1) (cacheKey_of b) = Some m"
    by (simp add: w1 update_conv')
  have memo: "map_of (board_columns w1) (int_to_string b) = Some cols"
    by (simp add: w1 set_own_def int_to_string_not_proto update_conv')
  have after: "map_of (columnSettingsCache (clearColumnCache w1 arg)) (cacheKey_of b) = None \<and>
               getBoardColumns pf net3 (clearColumnCache w1 arg) b =
                 (clearColumnCache w1 arg, Inr cols) \<and>
               fetchBoardColumnSettings pf net3 (clearColumnCache w1 arg) b =
                 (clearColumnCache w1 arg\<lparr> columnSettingsCache :=
                    AList.update (cacheKey_of b) m
                      (columnSettingsCache (clearColumnCache w1 arg)) \<rparr>, Inr m) \<and>
               requests (clearColumnCache w1 arg) = requests w1"
    if arg: "arg = Some b \<or> arg = None" for arg
  proof -
    have gone: "map_of (columnSettingsCache (clearColumnCache w1 arg)) (cacheKey_of b) = None"
      using arg cleared_cache(1,2)[of w1 b] by auto
    have bc: "map_of (board_columns (clearColumnCache w1 arg)) (int_to_string b) = Some cols"
      by (simp add: cleared_cache memo)
    show ?thesis
      using gone getBoardColumns_hit[OF bc, of pf net3] get_after_invalidate[OF bc bm gone, of pf net3]
      by (simp add: cleared_cache)
  qed
  from hit memo bm after[of "Some b"] after[of None] show ?thesis by auto
qed

text \<open>
  Claim C2, as amended. Start where neither the client nor the mapper holds the board, and
  let the first get succeed with the Schema Map \<open>m\<close>. Then that get has sent exactly one
  request and the Schema Cache holds \<open>m\<close> for the board; a second get sends no request and
  changes nothing. After \<^verbatim>\<open>clearColumnCache\<close>, for the board or for all boards, the Schema
  Cache has no entry for the board, and the next get does not find one: it calls
  \<^verbatim>\<open>getBoardColumns\<close>, rebuilds \<open>m\<close> from the columns that call returns and stores it again.
  But \<^verbatim>\<open>getBoardColumns\<close> answers from \<^verbatim>\<open>board_columns\<close>, which nothing ever invalidates:
  whatever the network would answer, it returns the columns of the first get and leaves the
  state as it is, so that no request is sent.
\<close>

theorem schema_cache_fetches:
  assumes "map_of (board_columns w) (int_to_string b) = None"
      and "map_of (columnSettingsCache w) (cacheKey_of b) = None"
      and "fetchBoardColumnSettings pf net1 w b = (w1, Inr m)"
  shows "requests w1 = requests w @ [board_request b] \<and>
         map_of (columnSettingsCache w1) (cacheKey_of b) = Some m \<and>
         fetchBoardColumnSettings pf net2 w1 b = (w1, Inr m) \<and>
         (\<exists>cols. map_of (board_columns w1) (int_to_string b) = Some cols \<and>
                  build_column_map cols = Inr m \<and>
            (\<forall>wc\<in>{clearColumnCache w1 (Some b), clearColumnCache w1 None}.
               map_of (columnSettingsCache wc) (cacheKey_of b) = None \<and>
               getBoardColumns pf net3 wc b = (wc, Inr cols) \<and>
               fetchBoardColumnSettings pf net3 wc b =
                 (wc\<lparr> columnSettingsCache :=
                        AList.update (cacheKey_of b) m (columnSettingsCache wc) \<rparr>, Inr m) \<and>
               requests wc = requests w1))"
  using three_gets(1,2)[OF assms] invalidated_get[OF assms] by blast

theorem schema_cache_fetches_witness:
  "requests (fst (fetchBoardColumnSettings example_platform board_network fresh_world 7)) =
     requests fresh_world @ [board_request 7] \<and>
   map_of (columnSettingsCache
             (clearColumnCache
                (fst (fetchBoardColumnSettings example_platform board_network fresh_world 7))
                (Some 7))) (cacheKey_of 7) = None \<and>
   requests (fst (fetchBoardColumnSettings example_platform no_network
                    (clearColumnCache
                       (fst (fetchBoardColumnSettings example_platform board_network fresh_world 7))
                       (Some 7)) 7)) =
     requests (fst (fetchBoardColumnSettings example_platform board_network fresh_world 7))"
proof -
  obtain w1 m where
    first: "fetchBoardColumnSettings example_platform board_network fresh_world 7 = (w1, Inr m)"
    using board_network_first_get by blast
  have nb: "map_of (board_columns fresh_world) (int_to_string 7) = None"
   and nc: "map_of (columnSettingsCache fresh_world) (cacheKey_of 7) = None"
    by (simp_all add: fresh_world_def)
  from schema_cache_fetches[OF nb nc first, of board_network no_network]
  show ?thesis by (auto simp: first)
qed

text \<open>
  Claim C2 as stated fails on a fresh client and mapper whose network answers: the two
  gets send one request, and the get after the invalidation sends none.
\<close>

theorem refetch_after_invalidate_counterexample:
  "\<not> refetch_after_invalidate example_platform board_network fresh_world 7"
proof -
  obtain w1 m where
    first: "fetchBoardColumnSettings example_platform board_network fresh_world 7 = (w1, Inr m)"
    using board_network_first_get by blast
  have nb: "map_of (board_columns fresh_world) (int_to_string 7) = None"
   and nc: "map_of (columnSettingsCache fresh_world) (cacheKey_of 7) = None"
    by (simp_all add: fresh_world_def)
  note t = three_gets[OF nb nc first]
  show ?thesis
    by (simp add: refetch_after_invalidate_def Let_def first t)
qed

subsection \<open>The populate step\<close>

lemma foldl_nested_undefined: "foldl nested_step JUndefined ks = JUndefined"
  by (induction ks) (simp_all add: nested_step_def)

lemma nested_step_resolve:
  "nested_step v k = (case resolve_truthy v [k] of Some x \<Rightarrow> x | None \<Rightarrow> JUndefined)"
  by (cases "js_get v k") (auto simp: nested_step_def js_get_opt_def)

lemma foldl_nested_resolve:
  "ks \<noteq> [] \<Longrightarrow>
   foldl nested_step v ks = (case resolve_truthy v ks of Some x \<Rightarrow> x | None \<Rightarrow> JUndefined) \<and>
   resolve_truthy v ks \<noteq> Some JUndefined"
proof (induction ks arbitrary: v)
  case Nil
  then show ?case by simp
next
  case (Cons k ks)
  show ?case
  proof (cases "ks = []")
    case True
    then show ?thesis
      by (cases "js_get v k") (auto simp: nested_step_def js_get_opt_def)
  next
    case False
    note ih = Cons.IH[OF False]
    show ?thesis
    proof (cases "resolve_truthy v [k]")
      case None
      then have s: "nested_step v k = JUndefined" by (simp add: nested_step_resolve)
      from None have "resolve_truthy v (k # ks) = None"
        by (auto split: if_splits sum.splits)
      then show ?thesis by (simp add: s foldl_nested_undefined)
    next
      case (Some x)
      then have s: "nested_step v k = x" by (simp add: nested_step_resolve)
      from Some have "resolve_truthy v (k # ks) = resolve_truthy x ks"
        by (auto split: if_splits sum.splits)
      then show ?thesis using ih[of x] by (simp add: s)
    qed
  qed
qed

lemma getNestedValue_resolve:
  "getNestedValue obj path =
     (case resolve_truthy obj (split_on (CHR ''.'') path) of Some x \<Rightarrow> x | None \<Rightarrow> JUndefined)"
  "resolve_truthy obj (split_on (CHR ''.'') path) \<noteq> Some JUndefined"
proof -
  have ne: "split_on (CHR ''.'') path \<noteq> []"
    by (induction path) (auto split: list.splits)
  show "getNestedValue obj path =
     (case resolve_truthy obj (split_on (CHR ''.'') path) of Some x \<Rightarrow> x | None \<Rightarrow> JUndefined)"
    "resolve_truthy obj (split_on (CHR ''.'') path) \<noteq> Some JUndefined"
    using foldl_nested_resolve[OF ne] by (simp_all add: getNestedValue_def)
qed

lemma populate_step:
  "populate_entries h pc ((k, a) # rest) ext =
     (case get_own (obj_at h a) ''remote_key'' of
        JStr path \<Rightarrow>
          populate_entries (h @ [populated_rule ext (obj_at h a)]) (set_own k (length h) pc) rest ext
      | rk \<Rightarrow>
          if truthy (get_own (obj_at h a) ''in_remote'') \<and> truthy rk
          then Inl (TypeError ''path.split is not a function'')
          else populate_entries (h @ [populated_rule ext (obj_at h a)]) (set_own k (length h) pc) rest ext)"
proof (cases "get_own (obj_at h a) ''remote_key''")
  case (JStr path)
  show ?thesis
    using getNestedValue_resolve[of ext path]
    by (auto simp: JStr populated_rule_def Let_def split: option.splits)
qed (simp_all add: populated_rule_def Let_def)

lemma populate_step_success:
  assumes "populate_entries h pc ((k, a) # rest) ext = Inr (h', pc')"
  shows "populate_entries (h @ [populated_rule ext (obj_at h a)]) (set_own k (length h) pc) rest ext
         = Inr (h', pc')"
  using assms unfolding populate_step
  by (cases "get_own (obj_at h a) ''remote_key''") (simp_all split: if_splits)

lemma populate_entries_extends:
  assumes "populate_entries h pc es ext = Inr (h', pc')"
  shows "\<exists>new. h' = h @ new \<and> length new = length es"
  using assms
proof (induction es arbitrary: h pc)
  case Nil
  then show ?case by simp
next
  case (Cons e es)
  obtain k a where e: "e = (k, a)" by (cases e)
  from Cons.IH[OF populate_step_success[OF Cons.prems[unfolded e]]]
  obtain new where "h' = (h @ [populated_rule ext (obj_at h a)]) @ new" "length new = length es"
    by blast
  then show ?case by (intro exI[of _ "populated_rule ext (obj_at h a) # new"]) simp
qed








subsection \<open>The caller's configuration\<close>

lemma set_set_own: "set (set_own k v al) \<subseteq> insert (k, v) (set al)"
proof -
  have "set (AList.update k v al) \<subseteq> insert (k, v) (set al)"
    by (induction al) auto
  then show ?thesis by (auto simp: set_own_def)
qed

lemma populate_entries_fresh:
  assumes "populate_entries h pc es ext = Inr (h', pc')"
      and "\<forall>(k, a)\<in>set pc. n \<le> a" and "n \<le> length h"
  shows "\<forall>(k, a)\<in>set pc'. n \<le> a"
  using assms
proof (induction es arbitrary: h pc)
  case Nil
  then show ?case by simp
next
  case (Cons e es)
  obtain k a where e: "e = (k, a)" by (cases e)
  have 1: "\<forall>(k, a)\<in>set (set_own k (length h) pc). n \<le> a"
    using set_set_own[of k "length h" pc] Cons.prems(2,3) by auto
  have 2: "n \<le> length (h @ [populated_rule ext (obj_at h a)])" using Cons.prems(3) by simp
  from Cons.IH[OF populate_step_success[OF Cons.prems(1)[unfolded e]] 1 2]
  show ?case .
qed

lemma getBoardColumns_objects: "objects (fst (getBoardColumns pf net w b)) = objects w"
proof (cases "map_of (board_columns w) (int_to_string b)")
  case None
  show ?thesis unfolding getBoardColumns_miss[OF None] by (simp split: sum.splits)
next
  case (Some cols)
  show ?thesis unfolding getBoardColumns_hit[OF Some] by simp
qed

lemma fetch_objects: "objects (fst (fetchBoardColumnSettings pf net w b)) = objects w"
proof -
  obtain wa r where g: "getBoardColumns pf net w b = (wa, r)" by (cases "getBoardColumns pf net w b")
  then have "objects wa = objects w" using getBoardColumns_objects[of pf net w b] by simp
  then show ?thesis
    by (simp add: fetchBoardColumnSettings_def Let_def g split: option.splits sum.splits)
qed

lemma processMapping_objects:
  "\<exists>new. objects (fst (processMapping pf net w cfg ext b)) = objects w @ new"
proof (cases "populateConfigValues (objects w) cfg ext")
  case (Inl e)
  then show ?thesis by (simp add: processMapping_def)
next
  case (Inr p)
  obtain h1 pc where p: "p = (h1, pc)" by (cases p)
  from Inr p obtain new where n: "h1 = objects w @ new"
    using populate_entries_extends[of "objects w" "[]" cfg ext h1 pc]
    by (auto simp: populateConfigValues_def)
  obtain w2 r where f: "fetchBoardColumnSettings pf net (w\<lparr>objects := h1\<rparr>) b = (w2, r)"
    by (cases "fetchBoardColumnSettings pf net (w\<lparr>objects := h1\<rparr>) b")
  then have o2: "objects w2 = h1" using fetch_objects[of pf net "w\<lparr>objects := h1\<rparr>" b] by simp
  have "objects (fst (processMapping pf net w cfg ext b)) = h1"
    by (cases r) (simp_all add: processMapping_def Inr p f o2)
  then show ?thesis using n by simp
qed

text \<open>
  Claim C9. \<^verbatim>\<open>populateConfigValues\<close> leaves every object that existed before the call as it
  was, so every entry of the caller's mapping configuration still has the \<^verbatim>\<open>value\<close> it had;
  the populated configuration refers to objects allocated by the call only. The same holds
  of the heap after \<^verbatim>\<open>processMapping\<close>, whether it returns or throws.
\<close>

theorem populate_leaves_config_unchanged:
  "(populateConfigValues h cfg ext = Inr (h', pc) \<longrightarrow>
      (\<forall>a<length h. obj_at h' a = obj_at h a) \<and>
      (\<forall>(k, a)\<in>set cfg. a < length h \<longrightarrow>
         get_own (obj_at h' a) ''value'' = get_own (obj_at h a) ''value'') \<and>
      (\<forall>(k, a')\<in>set pc. length h \<le> a')) \<and>
   (\<forall>a<length (objects w).
      obj_at (objects (fst (processMapping pf net w cfg ext b))) a = obj_at (objects w) a)"
proof (intro conjI impI)
  assume ok: "populateConfigValues h cfg ext = Inr (h', pc)"
  then have p: "populate_entries h [] cfg ext = Inr (h', pc)"
    by (simp add: populateConfigValues_def)
  from populate_entries_extends[OF p] obtain new where h': "h' = h @ new" by blast
  show same: "\<forall>a<length h. obj_at h' a = obj_at h a"
    by (simp add: h' obj_at_def nth_append)
  then show "\<forall>(k, a)\<in>set cfg. a < length h \<longrightarrow>
         get_own (obj_at h' a) ''value'' = get_own (obj_at h a) ''value''"
    by auto
  show "\<forall>(k, a')\<in>set pc. length h \<le> a'"
    using populate_entries_fresh[OF p, of "length h"] by simp
next
  from processMapping_objects[of pf net w cfg ext b] obtain new where
    "objects (fst (processMapping pf net w cfg ext b)) = objects w @ new" by blast
  then show "\<forall>a<length (objects w).
      obj_at (objects (fst (processMapping pf net w cfg ext b))) a = obj_at (objects w) a"
    by (simp add: obj_at_def nth_append)
qed

theorem populate_leaves_config_unchanged_witness:
  "obj_at ([example_rule] @ [example_rule @ [(''value'', JStr ''42'')]]) 0 = obj_at [example_rule] 0 \<and>
   get_own (obj_at ([example_rule] @ [example_rule @ [(''value'', JStr ''42'')]]) 0) ''value'' =
     get_own (obj_at [example_rule] 0) ''value'' \<and>
   get_own (obj_at ([example_rule] @ [example_rule @ [(''value'', JStr ''42'')]]) 1) ''value'' =
     JStr ''42''"
proof -
  have o: "obj_at [example_rule] 0 = example_rule" by (simp add: obj_at_def)
  note t = populate_leaves_config_unchanged[THEN conjunct1, THEN mp, OF populate_example[OF o]]
  from t have "obj_at ([example_rule] @ [example_rule @ [(''value'', JStr ''42'')]]) 0 =
               obj_at [example_rule] 0"
    by simp
  then show ?thesis by (simp add: obj_at_def get_own_def example_rule_def)
qed

subsection \<open>The error logger\<close>









text \<open>
  With the \<^verbatim>\<open>createItem\<close> of the repository's own client a failed request does not throw:
  \<^verbatim>\<open>withRetry\<close> has swallowed the failure and the response is undefined. The read of
  \<^verbatim>\<open>response.data\<close> inside the \<^verbatim>\<open>try\<close> block then throws, and the degraded record carries the
  message of that TypeError.
\<close>

lemma logError_no_response:
  assumes "logError_prepare pf columns errorData = Inr p"
      and "\<And>r. \<exists>e. query_attempt pf (net r) = Inl e"
  shows "snd (logError (client_gateway pf net w) pf b columns errorData) =
         Inr (not_saved (errorName p) ''Cannot read properties of undefined (reading data)'')"
proof -
  have "snd (createItem pf net w b' n cvs l) = JUndefined" for b' n cvs l
  proof -
    let ?r = "\<lparr> req_query = CreateItem_mutation,
                req_variables =
                  [(''boardId'', JStr (int_to_string b')), (''itemName'', JStr n),
                   (''columnValues'', JStr (json_stringify pf (JObj cvs))),
                   (''createLabels'', JBool l)] \<rparr>"
    from assms(2)[of ?r] obtain e where "query_attempt pf (net ?r) = Inl e" ..
    then show ?thesis by (simp add: createItem_def query_def withRetry_def Let_def)
  qed
  then show ?thesis
    by (simp add: logError_def Let_def client_gateway_def assms(1) thrown_message_def
          bind_result_def)
qed

lemma bind_throws:
  assumes "only_TypeError r" and "\<And>v. r = Inr v \<Longrightarrow> throws_TypeError (f v)"
  shows "throws_TypeError (bind_result r f)"
  using assms by (cases r) (auto simp: bind_result_def only_TypeError_def throws_TypeError_def)

lemma bind_result_simps:
  "bind_result (Inr v) f = f v" "bind_result (Inl e) f = Inl e"
  by (simp_all add: bind_result_def)

lemma bind_throws_first: "throws_TypeError r \<Longrightarrow> throws_TypeError (bind_result r f)"
  by (auto simp: bind_result_def throws_TypeError_def)

lemma js_get_only: "only_TypeError (js_get v k)"
  by (cases v) (simp_all add: only_TypeError_def)

lemma to_string_only:
  "only_TypeError (to_string v)" "only_TypeError (join_elems xs)" "only_TypeError (elem_string v)"
  by (induction v and xs and v rule: to_string_join_elems_elem_string.induct)
     (auto simp: only_TypeError_def split: sum.splits if_splits)

lemma assign_value_only: "only_TypeError (assign_value column v)"
  by (cases column) (simp_all add: only_TypeError_def)

lemma set_column_value_object:
  "only_TypeError (set_column_value k v (JObj ps))"
  "set_column_value k v (JObj ps) = Inr wc \<Longrightarrow> \<exists>ps'. wc = JObj ps' \<and> fst ` set ps' = fst ` set ps"
  "k \<notin> fst ` set ps \<Longrightarrow> throws_TypeError (set_column_value k v (JObj ps))"
proof -
  show "only_TypeError (set_column_value k v (JObj ps))"
    using assign_value_only[of "get_own ps k" v]
    by (auto simp: set_column_value_def bind_result_def only_TypeError_def get_own_def
             split: sum.splits)
  show "throws_TypeError (set_column_value k v (JObj ps))" if "k \<notin> fst ` set ps"
  proof -
    from that have "map_of ps k = None" by (simp add: map_of_eq_None_iff)
    then show ?thesis
      by (simp add: set_column_value_def bind_result_def throws_TypeError_def)
  qed
  assume ok: "set_column_value k v (JObj ps) = Inr wc"
  then obtain c1 where a: "assign_value (get_own ps k) v = Inr c1"
    and wc: "wc = JObj (AList.update k c1 ps)"
    by (auto simp: set_column_value_def bind_result_def get_own_def split: sum.splits)
  have "k \<in> fst ` set ps"
  proof (rule ccontr)
    assume "k \<notin> fst ` set ps"
    then have "map_of ps k = None" by (simp add: map_of_eq_None_iff)
    then have "get_own ps k = JUndefined" by (simp add: get_own_def)
    with a show False by simp
  qed
  then have "map fst (AList.update k c1 ps) = map fst ps"
    by (simp add: update_keys)
  then have "set (map fst (AList.update k c1 ps)) = set (map fst ps)" by simp
  then have "fst ` set (AList.update k c1 ps) = fst ` set ps" by (simp only: set_map)
  with wc show "\<exists>ps'. wc = JObj ps' \<and> fst ` set ps' = fst ` set ps" by blast
qed

lemma set_column_values_missing:
  assumes "k \<in> fst ` set kvs" "k \<notin> fst ` set ps"
  shows "throws_TypeError (set_column_values kvs (JObj ps))"
  using assms
proof (induction kvs arbitrary: ps)
  case Nil
  then show ?case by simp
next
  case (Cons kv kvs)
  obtain k' v' where kv: "kv = (k', v')" by (cases kv)
  show ?case
  proof (cases "set_column_value k' v' (JObj ps)")
    case (Inl e)
    with set_column_value_object(1)[of k' v' ps] show ?thesis
      by (auto simp: kv only_TypeError_def throws_TypeError_def)
  next
    case (Inr wc)
    from set_column_value_object(2)[OF Inr] obtain ps' where
      wc: "wc = JObj ps'" and keys: "fst ` set ps' = fst ` set ps" by blast
    have "k \<noteq> k'"
      using set_column_value_object(3)[of k' ps v'] Inr Cons.prems(2)
      by (auto simp: throws_TypeError_def)
    then have "k \<in> fst ` set kvs" using Cons.prems(1) by (auto simp: kv)
    from Cons.IH[OF this, of ps'] keys Cons.prems(2) show ?thesis
      by (simp add: kv Inr wc)
  qed
qed

lemma json_props_keys: "fst ` set (json_props ps) \<subseteq> fst ` set ps"
  by (induction ps) auto

lemma prepare_throws:
  assumes "k \<in> set logged_keys" "k \<notin> fst ` set ps"
  shows "throws_TypeError (logError_prepare pf (JObj ps) errorData)"
proof -
  have k': "k \<notin> fst ` set (json_props ps)" using assms(2) json_props_keys by blast
  have "throws_TypeError (set_column_values kvs (JObj (json_props ps)))"
    if "fst ` set kvs = set logged_keys" for kvs
    using set_column_values_missing[OF _ k', of kvs] assms(1) that by simp
  note miss = this
  show ?thesis
    unfolding logError_prepare_def Let_def
    apply (rule bind_throws[OF js_get_only])+
    apply (rule bind_throws[OF to_string_only(1)])+
    apply (simp only: json_clone_def jsval.distinct if_False json_value.simps bind_result_simps)
    apply (rule bind_throws_first)
    apply (rule miss)
    apply (simp add: logged_keys_def)
    done
qed

text \<open>
  Claim C10. When the columns object lacks one of the eight keys \<^verbatim>\<open>client\<close>,
  \<^verbatim>\<open>client_warn_email\<close>, \<^verbatim>\<open>description\<close>, \<^verbatim>\<open>erreur\<close>, \<^verbatim>\<open>payload\<close>, \<^verbatim>\<open>workflow\<close>, \<^verbatim>\<open>projet\<close>,
  \<^verbatim>\<open>error_type\<close>, \<^verbatim>\<open>logError\<close> throws a TypeError and makes no call to the gateway, whatever
  the gateway and the error record are.
\<close>

theorem logError_missing_key:
  assumes "k \<in> set logged_keys" and "k \<notin> fst ` set ps"
  shows "\<exists>m. logError gw pf b (JObj ps) errorData = ([], Inl (TypeError m))"
  using prepare_throws[OF assms, of pf errorData]
  by (auto simp: throws_TypeError_def logError_def)

theorem logError_missing_key_witness:
  "\<exists>m. logError failing_gateway example_platform 7 (JObj [(''client'', JObj [])]) example_error =
        ([], Inl (TypeError m))"
proof -
  have 1: "''payload'' \<in> set logged_keys" by (simp add: logged_keys_def)
  have 2: "''payload'' \<notin> fst ` set [(''client'', JObj [])]" by simp
  from logError_missing_key[OF 1 2] show ?thesis .
qed

end
